theory Spec2Isabelle
  imports Complex_Main "HOL-Library.Sublist"
begin

section \<open>JavaScript string primitives\<close>

text \<open>
  Strings are byte strings; the model covers ASCII text. A field of a JavaScript object
  that may be absent or \<open>null\<close> is an option, \<open>None\<close> standing for both: the code
  never tells them apart. Numbers are rationals. \<open>toLowerCase\<close> maps the
  letters A to Z to a to z and leaves every other character alone, \<open>trim\<close> strips the
  ASCII white space characters, \<open>s.includes(t)\<close> is the contiguous-sublist test,
  \<open>s.split(' ')\<close> cuts at every single space (so two spaces in a row give an empty
  piece) and \<open>xs.join(' ')\<close> puts one space between the pieces.
\<close>

definition toLowerCase_char :: "char \<Rightarrow> char" where
  "toLowerCase_char c =
     (case map_of (zip ''ABCDEFGHIJKLMNOPQRSTUVWXYZ'' ''abcdefghijklmnopqrstuvwxyz'') c of
        Some l \<Rightarrow> l
      | None \<Rightarrow> c)"

definition toLowerCase :: "string \<Rightarrow> string" where
  "toLowerCase s = map toLowerCase_char s"

definition is_space :: "char \<Rightarrow> bool" where
  "is_space c = ((of_char c :: nat) \<in> {9, 10, 11, 12, 13, 32})"

definition trim :: "string \<Rightarrow> string" where
  "trim s = rev (dropWhile is_space (rev (dropWhile is_space s)))"

definition str_includes :: "string \<Rightarrow> string \<Rightarrow> bool" where
  "str_includes s t = sublist t s"

fun split_on :: "char \<Rightarrow> string \<Rightarrow> string list" where
  "split_on d [] = [[]]"
| "split_on d (c # cs) =
     (if c = d then [] # split_on d cs
      else (case split_on d cs of [] \<Rightarrow> [[c]] | w # ws \<Rightarrow> (c # w) # ws))"

fun join :: "string \<Rightarrow> string list \<Rightarrow> string" where
  "join sep [] = []"
| "join sep [w] = w"
| "join sep (w # v # ws) = w @ sep @ join sep (v # ws)"

text \<open>A string in a condition: only the empty string is falsy.\<close>

definition truthy_str :: "string option \<Rightarrow> bool" where
  "truthy_str v = (case v of None \<Rightarrow> False | Some s \<Rightarrow> s \<noteq> [])"

text \<open>\<open>v || null\<close> on a string field that may be absent.\<close>

definition or_null :: "string option \<Rightarrow> string option" where
  "or_null v = (if truthy_str v then v else None)"

section \<open>Duration filter (youtubeService.js)\<close>

text \<open>
  \<open>parseDuration\<close> matches \<open>/PT(?:(\d+)H)?(?:(\d+)M)?(?:(\d+)S)?/\<close> against the
  string. The match is not anchored: it starts at the first occurrence of \<open>PT\<close>, and
  since the three groups are optional it succeeds there. A group takes the longest run
  of digits when that run is not empty and the unit letter follows it, and is undefined
  otherwise; \<open>parseInt(undefined) || 0\<close> is 0.
\<close>

definition is_digit :: "char \<Rightarrow> bool" where
  "is_digit c = (let n = (of_char c :: nat) in 48 \<le> n \<and> n \<le> 57)"

definition digit_val :: "char \<Rightarrow> nat" where
  "digit_val c = (of_char c :: nat) - 48"

definition parseInt_digits :: "string \<Rightarrow> nat" where
  "parseInt_digits ds = foldl (\<lambda>acc c. 10 * acc + digit_val c) 0 ds"

text \<open>One optional group \<open>(?:(\d+)U)?\<close>: its value and the rest of the input.\<close>

definition match_unit :: "char \<Rightarrow> string \<Rightarrow> nat \<times> string" where
  "match_unit u s =
     (let ds = takeWhile is_digit s; r = dropWhile is_digit s
      in (case r of
            c # r' \<Rightarrow> if ds \<noteq> [] \<and> c = u then (parseInt_digits ds, r') else (0, s)
          | [] \<Rightarrow> (0, s)))"

text \<open>The input after the first occurrence of \<open>PT\<close>, if there is one.\<close>

fun after_PT :: "string \<Rightarrow> string option" where
  "after_PT [] = None"
| "after_PT [c] = None"
| "after_PT (c # d # cs) =
     (if c = CHR ''P'' \<and> d = CHR ''T'' then Some cs else after_PT (d # cs))"

definition parseDuration :: "string option \<Rightarrow> nat" where
  "parseDuration duration =
     (case duration of
        None \<Rightarrow> 0
      | Some d \<Rightarrow>
          if d = [] then 0
          else (case after_PT d of
                  None \<Rightarrow> 0
                | Some s \<Rightarrow>
                    (let (hours, s1) = match_unit (CHR ''H'') s;
                         (minutes, s2) = match_unit (CHR ''M'') s1;
                         (seconds, s3) = match_unit (CHR ''S'') s2
                     in hours * 3600 + minutes * 60 + seconds)))"

record video_data =
  vd_duration :: "string option"
  vd_title :: string

definition nonFoodKeywords :: "string list" where
  "nonFoodKeywords =
     [''music'', ''live stream'', ''shorts'', ''compilation'', ''trailer'', ''announcement'']"

definition isVideoSuitableForProcessing :: "video_data \<Rightarrow> bool" where
  "isVideoSuitableForProcessing video =
     (let durationSeconds = parseDuration (vd_duration video);
          title = toLowerCase (vd_title video)
      in if durationSeconds \<le> 60 then False
         else if durationSeconds < 120 then False
         else if list_ex (\<lambda>keyword. str_includes title keyword) nonFoodKeywords then False
         else True)"

section \<open>Recommendation extractor (aiService.js)\<close>

text \<open>
  An element of the \<open>restaurants\<close> array of the parsed model response, typed as the
  prompt's schema asks: text fields are strings, \<open>confidenceScore\<close> and
  \<open>mentionedAt\<close> are numbers, and each field may be absent or \<open>null\<close>.
\<close>

record raw_restaurant =
  raw_name :: "string option"
  raw_location :: "string option"
  raw_address :: "string option"
  raw_cuisineType :: "string option"
  raw_dishMentioned :: "string option"
  raw_context :: "string option"
  raw_confidenceScore :: "rat option"
  raw_priceRange :: "string option"
  raw_mentionedAt :: "rat option"

text \<open>
  The parsed response as the validation sees it: \<open>None\<close> when the response is falsy,
  has no \<open>restaurants\<close> field or that field is not an array.
\<close>

type_synonym raw_response = "raw_restaurant list option"

text \<open>
  A JavaScript number as the pipeline meets it: \<open>NaN\<close> or a rational. The
  extractor's \<open>mentionedAt\<close> is a number of the parsed response; the reconciler may
  put \<open>NaN\<close> in its place.
\<close>

datatype js_number = NaN | Num rat

record recommendation =
  rec_name :: string
  rec_location :: "string option"
  rec_address :: "string option"
  rec_cuisineType :: "string option"
  rec_dishMentioned :: "string option"
  rec_context :: "string option"
  rec_confidenceScore :: rat
  rec_priceRange :: "string option"
  rec_mentionedAt :: "js_number option"

text \<open>A number in a condition: absent, \<open>null\<close> and 0 are falsy.\<close>

definition truthy_num :: "rat option \<Rightarrow> bool" where
  "truthy_num v = (case v of None \<Rightarrow> False | Some x \<Rightarrow> x \<noteq> 0)"

text \<open>
  \<open>v >= c\<close>: an absent value compares as \<open>NaN\<close> and \<open>null\<close> as 0, and both
  comparisons are false for a positive \<open>c\<close>.
\<close>

definition num_ge :: "rat option \<Rightarrow> rat \<Rightarrow> bool" where
  "num_ge v c = (case v of None \<Rightarrow> False | Some x \<Rightarrow> c \<le> x)"

definition validRanges :: "string list" where
  "validRanges = [''$'', ''$$'', ''$$$'', ''$$$$'']"

definition validatePriceRange :: "string option \<Rightarrow> string option" where
  "validatePriceRange priceRange =
     (case priceRange of
        None \<Rightarrow> None
      | Some p \<Rightarrow> if p \<in> set validRanges then Some p else None)"

text \<open>The predicate of the \<open>filter\<close> call.\<close>

definition passes_validation :: "raw_restaurant \<Rightarrow> bool" where
  "passes_validation restaurant =
     (truthy_str (raw_name restaurant) \<and>
      (case raw_name restaurant of None \<Rightarrow> False | Some n \<Rightarrow> 0 < length (trim n)) \<and>
      (num_ge (raw_confidenceScore restaurant) (6 / 10) \<or>
       \<not> truthy_num (raw_confidenceScore restaurant)))"

text \<open>
  The function of the \<open>map\<close> call. It runs on elements that passed the filter, whose
  name is a string; the \<open>None\<close> branch of the name is there for totality only.
\<close>

definition format_restaurant :: "raw_restaurant \<Rightarrow> recommendation" where
  "format_restaurant restaurant =
     \<lparr> rec_name = trim (case raw_name restaurant of Some n \<Rightarrow> n | None \<Rightarrow> []),
       rec_location = or_null (raw_location restaurant),
       rec_address = or_null (raw_address restaurant),
       rec_cuisineType = or_null (raw_cuisineType restaurant),
       rec_dishMentioned = or_null (raw_dishMentioned restaurant),
       rec_context = or_null (raw_context restaurant),
       rec_confidenceScore =
         (if truthy_num (raw_confidenceScore restaurant)
          then (case raw_confidenceScore restaurant of Some x \<Rightarrow> x | None \<Rightarrow> 8 / 10)
          else 8 / 10),
       rec_priceRange = validatePriceRange (raw_priceRange restaurant),
       rec_mentionedAt =
         (if truthy_num (raw_mentionedAt restaurant)
          then map_option Num (raw_mentionedAt restaurant) else None) \<rparr>"

definition validateAndFormatRecommendations :: "raw_response \<Rightarrow> recommendation list" where
  "validateAndFormatRecommendations recommendations =
     (case recommendations of
        None \<Rightarrow> []
      | Some restaurants \<Rightarrow> map format_restaurant (filter passes_validation restaurants))"

text \<open>
  \<open>content.match(/\{[\s\S]*\}/)\<close>: the text from the first opening brace to the last
  closing brace after it, when there is one.
\<close>

definition json_match :: "string \<Rightarrow> string option" where
  "json_match content =
     (case dropWhile (\<lambda>c. c \<noteq> CHR ''{'') content of
        [] \<Rightarrow> None
      | b # rest \<Rightarrow>
          (case dropWhile (\<lambda>c. c \<noteq> CHR ''}'') (rev rest) of
             [] \<Rightarrow> None
           | r \<Rightarrow> Some (b # rev r)))"

section \<open>The third-party services\<close>

text \<open>
  The captioning library, the fallback transcript provider, the completion endpoint,
  the JSON parser and the database are outside the repository: their answers are
  parameters of the model. A call that throws is \<open>Inl\<close> of the error's message.
  \<^item> \<open>fetchTranscript_text\<close> and \<open>fetchTranscript_timed\<close> are the two calls of
    \<open>YoutubeTranscript.fetchTranscript\<close>, from the transcript acquirer and from the
    timestamp service; they need not answer alike.
  \<^item> \<open>rapidApi\<close> is the HTTP request to the fallback provider.
  \<^item> \<open>openai_complete transcript title\<close> is the content of the completion for the
    prompt built from the transcript and the title.
  \<^item> \<open>json_parse\<close> is \<open>JSON.parse\<close> followed by the reading of the
    \<open>restaurants\<close> field.
  \<^item> \<open>ilike pattern value\<close> is the database's \<open>ILIKE\<close>.
  \<^item> \<open>request_error request\<close> is the error the database answers a request with,
    for a reason other than the constraints written out in the store below: the
    connection, a time-out, a value that does not fit its column. \<open>None\<close> when
    there is no such error. In the model the answer depends on the request alone.
\<close>

text \<open>
  An entry of the caption array. Its text is \<open>None\<close> when the entry has no string
  there (or is not an object at all): \<open>entry.text.toLowerCase()\<close> throws on it. Its
  offset is the number the division \<open>entry.offset / 1000\<close> reads: \<open>None\<close> when
  that is \<open>NaN\<close>, as for an entry without an offset or with one that is not numeric.
\<close>

record caption_entry =
  ce_text :: "string option"
  ce_offset :: "rat option"

text \<open>
  What the captioning library may answer with.
  \<^item> \<open>Entries\<close>: an array.
  \<^item> \<open>Nullish\<close>: \<open>null\<close> or \<open>undefined\<close>; reading \<open>.length\<close> or \<open>.map\<close>
    throws.
  \<^item> \<open>Falsy\<close>: another falsy value without a length (\<open>0\<close>, \<open>false\<close>,
    \<open>NaN\<close>); its \<open>.length\<close> and \<open>.map\<close> are \<open>undefined\<close>.
  \<^item> \<open>Empty_like\<close>: a value that is not an array and whose \<open>.length\<close> is 0 (the
    empty string, an object with that field).
  \<^item> \<open>Other_value\<close>: any other value: truthy, with a length other than 0 or none,
    and no \<open>.map\<close> method.
\<close>

datatype transcript_answer =
    Entries "caption_entry list"
  | Nullish
  | Falsy
  | Empty_like
  | Other_value

datatype rapid_segment = Seg_object "string option" | Seg_string string

datatype rapid_transcript =
    RT_array "rapid_segment list"
  | RT_string string
  | RT_other

datatype axios_result =
    Axios_response rapid_transcript
  | Axios_http_error nat "string option"
  | Axios_failure string

record restaurant_data =
  rd_name :: string
  rd_address :: "string option"
  rd_city :: "string option"
  rd_cuisine_type :: "string option"
  rd_price_range :: "string option"

record recommendation_data =
  rcd_video_id :: nat
  rcd_restaurant_id :: nat
  rcd_confidence_score :: rat
  rcd_context :: "string option"
  rcd_dish_mentioned :: "string option"
  rcd_mentioned_at_timestamp :: "rat option"

text \<open>
  The object passed to \<open>updateVideo\<close>: a field is \<open>None\<close> when the object has no such
  key; \<open>u_processing_error = Some None\<close> writes \<open>null\<close>.
\<close>

record video_update =
  u_transcript :: "string option"
  u_processed :: "bool option"
  u_processing_error :: "string option option"

text \<open>The fields of the answer of \<open>getVideoDetails\<close> that the pipeline reads.\<close>

record video_details =
  vdt_videoId :: string
  vdt_title :: string
  vdt_description :: "string option"
  vdt_duration :: "string option"
  vdt_channelId :: string

text \<open>
  The requests the pipeline sends to the database: the reads and writes of
  \<open>supabaseService.js\<close> it uses, and the read of the failed videos that the
  reprocessing route sends itself.
\<close>

datatype db_request =
    Select_video string
  | Update_video string video_update
  | Insert_video video_details nat
  | Select_unprocessed nat
  | Select_failed nat
  | Select_restaurants string "string option"
  | Insert_restaurant restaurant_data
  | Insert_recommendation recommendation_data

record services =
  fetchTranscript_text :: "string \<Rightarrow> string + transcript_answer"
  fetchTranscript_timed :: "string \<Rightarrow> string + transcript_answer"
  rapidApi :: "string \<Rightarrow> axios_result"
  openai_complete :: "string \<Rightarrow> string \<Rightarrow> string + string"
  json_parse :: "string \<Rightarrow> string + raw_response"
  ilike :: "string \<Rightarrow> string \<Rightarrow> bool"
  request_error :: "db_request \<Rightarrow> string option"

definition extractRestaurantRecommendations ::
  "services \<Rightarrow> string \<Rightarrow> string \<Rightarrow> string + recommendation list" where
  "extractRestaurantRecommendations env transcript videoTitle =
     (let failed = (\<lambda>message. Inl (''Failed to extract recommendations: '' @ message))
      in (case openai_complete env transcript videoTitle of
            Inl message \<Rightarrow> failed message
          | Inr content \<Rightarrow>
              (case json_parse env content of
                 Inr recommendations \<Rightarrow> Inr (validateAndFormatRecommendations recommendations)
               | Inl parseError \<Rightarrow>
                   (case json_match content of
                      Some jsonMatch \<Rightarrow>
                        (case json_parse env jsonMatch of
                           Inr recommendations \<Rightarrow>
                             Inr (validateAndFormatRecommendations recommendations)
                         | Inl message \<Rightarrow> failed message)
                    | None \<Rightarrow> failed ''AI response is not valid JSON''))))"

section \<open>Transcript acquirer (youtubeService.js)\<close>

text \<open>The decimal digits of a number, as a template literal prints it.\<close>

fun show_nat :: "nat \<Rightarrow> string" where
  "show_nat n =
     (if n < 10 then [''0123456789'' ! n]
      else show_nat (n div 10) @ [''0123456789'' ! (n mod 10)])"

declare show_nat.simps [simp del]

text \<open>
  \<open>entry.text || entry\<close> inside \<open>join\<close>: a string entry is itself, an object entry is
  its text when that is a non-empty string and prints as \<open>[object Object]\<close> otherwise.
\<close>

definition segment_text :: "rapid_segment \<Rightarrow> string" where
  "segment_text entry =
     (case entry of
        Seg_string s \<Rightarrow> s
      | Seg_object None \<Rightarrow> ''[object Object]''
      | Seg_object (Some t) \<Rightarrow> if t \<noteq> [] then t else ''[object Object]'')"

text \<open>
  The error thrown for a response without transcript data is thrown inside the
  \<open>try\<close> block, so the \<open>catch\<close> block rewraps it as a failed request.
\<close>

definition getRapidApiTranscript :: "services \<Rightarrow> string \<Rightarrow> string + string" where
  "getRapidApiTranscript env videoId =
     (let no_data = Inl (''RapidAPI request failed: '' @ ''No transcript data in RapidAPI response'')
      in (case rapidApi env videoId of
            Axios_http_error status message \<Rightarrow>
              Inl (''RapidAPI error: '' @ show_nat status @ '' - '' @
                   (case message of
                      None \<Rightarrow> ''Unknown error''
                    | Some m \<Rightarrow> if m \<noteq> [] then m else ''Unknown error''))
          | Axios_failure message \<Rightarrow> Inl (''RapidAPI request failed: '' @ message)
          | Axios_response transcript \<Rightarrow>
              (case transcript of
                 RT_array segments \<Rightarrow> Inr (join '' '' (map segment_text segments))
               | RT_string t \<Rightarrow> if t \<noteq> [] then Inr t else no_data
               | RT_other \<Rightarrow> no_data)))"

text \<open>
  The messages of the two \<open>TypeError\<close>s of the pipeline: a property read on
  \<open>null\<close> or \<open>undefined\<close>, and a call of \<open>.map\<close> on a value that has no such
  method.
\<close>

definition type_error :: string where
  "type_error = ''Cannot read properties of undefined''"

definition not_a_function :: string where
  "not_a_function = ''transcriptArray.map is not a function''"

text \<open>The \<open>try\<close> block of \<open>getVideoTranscript\<close>: the primary captioning source.\<close>

definition youtube_transcript :: "services \<Rightarrow> string \<Rightarrow> string + string" where
  "youtube_transcript env videoId =
     (case fetchTranscript_text env videoId of
        Inl message \<Rightarrow> Inl message
      | Inr Nullish \<Rightarrow> Inl type_error
      | Inr Falsy \<Rightarrow> Inl not_a_function
      | Inr Empty_like \<Rightarrow> Inl not_a_function
      | Inr Other_value \<Rightarrow> Inl not_a_function
      | Inr (Entries transcriptArray) \<Rightarrow>
          (let transcript =
                 join '' '' (map (\<lambda>entry. case ce_text entry of None \<Rightarrow> [] | Some t \<Rightarrow> t)
                                transcriptArray)
           in if 50 < length (trim transcript) then Inr transcript
              else Inl ''YouTube transcript too short''))"

definition getVideoTranscript :: "services \<Rightarrow> string \<Rightarrow> string + string" where
  "getVideoTranscript env videoId =
     (case youtube_transcript env videoId of
        Inr transcript \<Rightarrow> Inr transcript
      | Inl message \<Rightarrow>
          (case getRapidApiTranscript env videoId of
             Inr transcript \<Rightarrow> Inr transcript
           | Inl rapidApiMessage \<Rightarrow>
               Inl (''Failed to fetch video transcript from both sources: YouTube ('' @
                    message @ '') and RapidAPI ('' @ rapidApiMessage @ '')'')))"

section \<open>Timestamp reconciler (timestampService.js)\<close>

definition getTranscriptWithTimestamps :: "services \<Rightarrow> string \<Rightarrow> transcript_answer" where
  "getTranscriptWithTimestamps env videoId =
     (case fetchTranscript_timed env videoId of
        Inl message \<Rightarrow> Entries []
      | Inr transcriptArray \<Rightarrow> transcriptArray)"

record timed_entry =
  te_text :: string
  te_timestamp :: js_number
  te_offset :: "rat option"

text \<open>\<open>Math.floor(entry.offset / 1000)\<close>; the floor of \<open>NaN\<close> is \<open>NaN\<close>.\<close>

definition whole_seconds :: "rat option \<Rightarrow> js_number" where
  "whole_seconds offset =
     (case offset of
        None \<Rightarrow> NaN
      | Some x \<Rightarrow> Num (of_int \<lfloor>x / 1000\<rfloor>))"

text \<open>
  The first \<open>map\<close> of \<open>findRestaurantTimestamp\<close>: \<open>entry.text.toLowerCase()\<close> throws
  at the first entry whose text is not a string.
\<close>

fun timestampedText_of :: "caption_entry list \<Rightarrow> string + timed_entry list" where
  "timestampedText_of [] = Inr []"
| "timestampedText_of (entry # entries) =
     (case ce_text entry of
        None \<Rightarrow> Inl type_error
      | Some t \<Rightarrow>
          (case timestampedText_of entries of
             Inl message \<Rightarrow> Inl message
           | Inr rest \<Rightarrow>
               Inr (\<lparr> te_text = toLowerCase t,
                      te_timestamp = whole_seconds (ce_offset entry),
                      te_offset = ce_offset entry \<rparr> # rest)))"

definition searchTerms_of :: "string \<Rightarrow> string option \<Rightarrow> string list" where
  "searchTerms_of restaurantName context =
     filter (\<lambda>term. 2 < length term)
       ([toLowerCase restaurantName] @
        split_on (CHR '' '') (toLowerCase restaurantName) @
        filter (\<lambda>word. 3 < length word)
          (split_on (CHR '' '') (toLowerCase (case context of None \<Rightarrow> [] | Some c \<Rightarrow> c))))"

text \<open>\<open>timestampedText.slice(Math.max(0, i - 2), Math.min(length, i + 3))\<close>.\<close>

definition contextWindow :: "timed_entry list \<Rightarrow> nat \<Rightarrow> timed_entry list" where
  "contextWindow timestampedText i =
     (let first = i - 2; last = min (length timestampedText) (i + 3)
      in take (last - first) (drop first timestampedText))"

definition windowText :: "timed_entry list \<Rightarrow> nat \<Rightarrow> string" where
  "windowText timestampedText i = join '' '' (map te_text (contextWindow timestampedText i))"

text \<open>The \<open>forEach\<close> over the search terms, on one window.\<close>

definition window_score :: "string list \<Rightarrow> string \<Rightarrow> string \<Rightarrow> nat" where
  "window_score searchTerms lowerName text =
     foldl (\<lambda>score term.
              if str_includes text term
              then (if term = lowerName then score + 1 + 2 else score + 1)
              else score)
           0 searchTerms"

text \<open>One round of the \<open>for\<close> loop, on the pair \<open>(bestMatch, bestScore)\<close>.\<close>

definition scan_step ::
  "timed_entry list \<Rightarrow> string list \<Rightarrow> string \<Rightarrow> js_number option \<times> nat \<Rightarrow> nat
     \<Rightarrow> js_number option \<times> nat" where
  "scan_step timestampedText searchTerms lowerName best i =
     (let entry = timestampedText ! i;
          score = window_score searchTerms lowerName (windowText timestampedText i)
      in if snd best < score then (Some (te_timestamp entry), score) else best)"

text \<open>The whole loop: the pair \<open>(bestMatch, bestScore)\<close> it ends with.\<close>

definition best_match ::
  "timed_entry list \<Rightarrow> string \<Rightarrow> string option \<Rightarrow> js_number option \<times> nat" where
  "best_match timestampedText restaurantName context =
     foldl (scan_step timestampedText (searchTerms_of restaurantName context)
              (toLowerCase restaurantName))
       (None, 0) [0..<length timestampedText]"

text \<open>
  The guard \<open>!transcriptArray || transcriptArray.length === 0\<close> answers \<open>null\<close>
  for every falsy value and for every value of length 0; any other value that is not an
  array has no \<open>.map\<close>.
\<close>

definition findRestaurantTimestamp ::
  "transcript_answer \<Rightarrow> string \<Rightarrow> string option \<Rightarrow> string + js_number option" where
  "findRestaurantTimestamp transcriptArray restaurantName context =
     (case transcriptArray of
        Nullish \<Rightarrow> Inr None
      | Falsy \<Rightarrow> Inr None
      | Empty_like \<Rightarrow> Inr None
      | Other_value \<Rightarrow> Inl not_a_function
      | Entries entries \<Rightarrow>
          if length entries = 0 then Inr None
          else (case timestampedText_of entries of
                  Inl message \<Rightarrow> Inl message
                | Inr timestampedText \<Rightarrow>
                    (let best = best_match timestampedText restaurantName context
                     in Inr (if 2 \<le> snd best then fst best else None))))"

subsection \<open>The scoring rule in closed form\<close>

text \<open>
  The weight the loop gives to a term that occurs in the window: 1, and 2 more when the
  term is the lowercased restaurant name. The score of a window is the sum of the
  weights of the search terms that occur in it, a term counting once for each time it
  stands in the list.
\<close>

definition term_weight :: "string \<Rightarrow> string \<Rightarrow> nat" where
  "term_weight lowerName term = (if term = lowerName then 3 else 1)"

definition weighted_hits :: "string list \<Rightarrow> string \<Rightarrow> string \<Rightarrow> nat" where
  "weighted_hits searchTerms lowerName text =
     sum_list (map (term_weight lowerName) (filter (\<lambda>term. str_includes text term) searchTerms))"

definition position_score :: "timed_entry list \<Rightarrow> string \<Rightarrow> string option \<Rightarrow> nat \<Rightarrow> nat" where
  "position_score timestampedText restaurantName context i =
     weighted_hits (searchTerms_of restaurantName context) (toLowerCase restaurantName)
       (join '' '' (map (\<lambda>j. te_text (timestampedText ! j))
                    [i - 2 ..< min (length timestampedText) (i + 3)]))"

subsection \<open>The scoring rule in the words of the specification\<close>

text \<open>
  The search-term set of the specification: the full name at weight 2, each token of
  the name at weight 1 and each context word longer than 3 characters at weight 1; the
  score of a text is the sum of the weights of the terms of the set that occur in it.
\<close>

definition spec_search_terms :: "string \<Rightarrow> string option \<Rightarrow> (string \<times> nat) list" where
  "spec_search_terms restaurantName context =
     remdups
       ((toLowerCase restaurantName, 2) #
        map (\<lambda>token. (token, 1))
          (filter (\<lambda>token. token \<noteq> []) (split_on (CHR '' '') (toLowerCase restaurantName))) @
        map (\<lambda>word. (word, 1))
          (filter (\<lambda>word. 3 < length word)
             (split_on (CHR '' '') (toLowerCase (case context of None \<Rightarrow> [] | Some c \<Rightarrow> c)))))"

definition spec_score :: "(string \<times> nat) list \<Rightarrow> string \<Rightarrow> nat" where
  "spec_score terms text =
     sum_list (map snd (filter (\<lambda>term. str_includes text (fst term)) terms))"

text \<open>
  The \<open>map\<close> over the recommendations: it stops at the first one whose matching throws.
\<close>

fun enhance_all ::
  "transcript_answer \<Rightarrow> recommendation list \<Rightarrow> string + recommendation list" where
  "enhance_all transcriptArray [] = Inr []"
| "enhance_all transcriptArray (rec # recs) =
     (case findRestaurantTimestamp transcriptArray (rec_name rec) (rec_context rec) of
        Inl message \<Rightarrow> Inl message
      | Inr timestamp \<Rightarrow>
          (case enhance_all transcriptArray recs of
             Inl message \<Rightarrow> Inl message
           | Inr rest \<Rightarrow> Inr (rec\<lparr>rec_mentionedAt := timestamp\<rparr> # rest)))"

text \<open>
  The \<open>try\<close> block of \<open>enhanceRecommendationsWithTimestamps\<close>. The test
  \<open>transcriptArray.length === 0\<close> throws on \<open>null\<close> and \<open>undefined\<close>, holds
  of an empty array and of any other value of length 0, and fails for every other
  value, which then goes to the \<open>map\<close> over the recommendations.
\<close>

definition enhance_try ::
  "services \<Rightarrow> string \<Rightarrow> recommendation list \<Rightarrow> string + recommendation list" where
  "enhance_try env videoId aiRecommendations =
     (case getTranscriptWithTimestamps env videoId of
        Nullish \<Rightarrow> Inl type_error
      | Empty_like \<Rightarrow> Inr aiRecommendations
      | Falsy \<Rightarrow> enhance_all Falsy aiRecommendations
      | Other_value \<Rightarrow> enhance_all Other_value aiRecommendations
      | Entries transcriptArray \<Rightarrow>
          if length transcriptArray = 0 then Inr aiRecommendations
          else enhance_all (Entries transcriptArray) aiRecommendations)"

definition enhanceRecommendationsWithTimestamps ::
  "services \<Rightarrow> string \<Rightarrow> recommendation list \<Rightarrow> recommendation list" where
  "enhanceRecommendationsWithTimestamps env videoId aiRecommendations =
     (case enhance_try env videoId aiRecommendations of
        Inr enhancedRecommendations \<Rightarrow> enhancedRecommendations
      | Inl message \<Rightarrow> aiRecommendations)"

text \<open>
  The value the reconciler writes into \<open>mentionedAt\<close> on a transcript whose entries
  all carry a text: the whole seconds of the best match when its score reaches 2.
\<close>

definition stamp :: "timed_entry list \<Rightarrow> recommendation \<Rightarrow> js_number option" where
  "stamp timestampedText rec =
     (if 2 \<le> snd (best_match timestampedText (rec_name rec) (rec_context rec))
      then fst (best_match timestampedText (rec_name rec) (rec_context rec))
      else None)"

section \<open>The store (schema.sql, supabaseService.js)\<close>

text \<open>
  The three tables the pipeline writes, as lists of rows in insertion order. Primary
  keys are drawn from the counter \<open>next_id\<close>. A request fails when the database
  answers it with an error (\<open>request_error\<close>) or when it breaks a constraint of the
  schema; each function of \<open>supabaseService.js\<close> then throws its own message.
\<close>

record video =
  v_id :: nat
  v_video_id :: string
  v_title :: string
  v_description :: "string option"
  v_duration :: "string option"
  v_transcript :: "string option"
  v_processed :: bool
  v_processing_error :: "string option"
  v_created_at :: nat

record restaurant =
  r_id :: nat
  r_name :: string
  r_address :: "string option"
  r_city :: "string option"
  r_cuisine_type :: "string option"
  r_price_range :: "string option"

record recommendation_row =
  rr_id :: nat
  rr_video_id :: nat
  rr_restaurant_id :: nat
  rr_confidence_score :: rat
  rr_context :: "string option"
  rr_dish_mentioned :: "string option"
  rr_mentioned_at_timestamp :: "rat option"

record store =
  videos :: "video list"
  restaurants :: "restaurant list"
  restaurant_recommendations :: "recommendation_row list"
  next_id :: nat

definition no_update :: video_update where
  "no_update = \<lparr> u_transcript = None, u_processed = None, u_processing_error = None \<rparr>"

definition apply_update :: "video_update \<Rightarrow> video \<Rightarrow> video" where
  "apply_update updates row =
     row\<lparr> v_transcript :=
            (case u_transcript updates of None \<Rightarrow> v_transcript row | Some t \<Rightarrow> Some t),
          v_processed :=
            (case u_processed updates of None \<Rightarrow> v_processed row | Some b \<Rightarrow> b),
          v_processing_error :=
            (case u_processing_error updates of None \<Rightarrow> v_processing_error row | Some e \<Rightarrow> e) \<rparr>"

text \<open>The error of \<open>.single()\<close> when the request does not yield exactly one row.\<close>

definition single_row_message :: string where
  "single_row_message = ''JSON object requested, multiple (or no) rows returned''"

text \<open>
  The row \<open>.eq('video_id', videoId).single()\<close> selects: there is one when exactly one
  row matches.
\<close>

definition video_row :: "store \<Rightarrow> string \<Rightarrow> video option" where
  "video_row s videoId =
     (case filter (\<lambda>v. v_video_id v = videoId) (videos s) of
        [row] \<Rightarrow> Some row
      | _ \<Rightarrow> None)"

text \<open>
  \<open>getVideo\<close> throws on every error but the one of \<open>.single()\<close> (code
  \<open>PGRST116\<close>), for which it returns \<open>null\<close>.
\<close>

definition getVideo :: "services \<Rightarrow> store \<Rightarrow> string \<Rightarrow> string + video option" where
  "getVideo env s videoId =
     (case request_error env (Select_video videoId) of
        Some message \<Rightarrow> Inl (''Failed to get video: '' @ message)
      | None \<Rightarrow> Inr (video_row s videoId))"

text \<open>\<open>updateVideo\<close> throws on every error, the one of \<open>.single()\<close> included.\<close>

definition updateVideo ::
  "services \<Rightarrow> store \<Rightarrow> string \<Rightarrow> video_update \<Rightarrow> string + store" where
  "updateVideo env s videoId updates =
     (case request_error env (Update_video videoId updates) of
        Some message \<Rightarrow> Inl (''Failed to update video: '' @ message)
      | None \<Rightarrow>
          (case video_row s videoId of
             Some row \<Rightarrow>
               Inr (s\<lparr> videos :=
                         map (\<lambda>v. if v_video_id v = videoId then apply_update updates v else v)
                           (videos s) \<rparr>)
           | None \<Rightarrow> Inl (''Failed to update video: '' @ single_row_message)))"

text \<open>
  The JavaScript filter of \<open>getUnprocessedVideos\<close>. Its \<open>catch\<close> branch is not
  modelled: \<open>parseDuration\<close> does not throw on a string.
\<close>

definition duration_filter :: "video \<Rightarrow> bool" where
  "duration_filter video =
     (if \<not> truthy_str (v_duration video) then True
      else 120 < parseDuration (v_duration video))"

text \<open>Rows in descending order of \<open>created_at\<close>.\<close>

definition newest_first :: "video list \<Rightarrow> video list" where
  "newest_first rows = rev (sort_key v_created_at rows)"

definition getUnprocessedVideos :: "services \<Rightarrow> store \<Rightarrow> nat \<Rightarrow> string + video list" where
  "getUnprocessedVideos env s limit =
     (case request_error env (Select_unprocessed limit) of
        Some message \<Rightarrow> Inl (''Failed to get unprocessed videos: '' @ message)
      | None \<Rightarrow>
          (let data = take limit
                        (newest_first
                           (filter (\<lambda>v. \<not> v_processed v \<and> v_processing_error v = None)
                              (videos s)))
           in Inr (filter duration_filter data)))"

definition findRestaurantByName ::
  "services \<Rightarrow> store \<Rightarrow> string \<Rightarrow> string option \<Rightarrow> string + restaurant list" where
  "findRestaurantByName env s name city =
     (case request_error env (Select_restaurants name city) of
        Some message \<Rightarrow> Inl (''Failed to find restaurant: '' @ message)
      | None \<Rightarrow>
          Inr (take 5
                 (filter
                    (\<lambda>r. ilike env (''%'' @ name @ ''%'') (r_name r) \<and>
                         (case city of
                            None \<Rightarrow> True
                          | Some c \<Rightarrow>
                              if c = [] then True
                              else (case r_city r of
                                      None \<Rightarrow> False
                                    | Some rc \<Rightarrow> ilike env (''%'' @ c @ ''%'') rc)))
                    (restaurants s))))"

definition createRestaurant ::
  "services \<Rightarrow> store \<Rightarrow> restaurant_data \<Rightarrow> string + restaurant \<times> store" where
  "createRestaurant env s restaurantData =
     (case request_error env (Insert_restaurant restaurantData) of
        Some message \<Rightarrow> Inl (''Failed to create restaurant: '' @ message)
      | None \<Rightarrow>
          (let row = \<lparr> r_id = next_id s,
                       r_name = rd_name restaurantData,
                       r_address = rd_address restaurantData,
                       r_city = rd_city restaurantData,
                       r_cuisine_type = rd_cuisine_type restaurantData,
                       r_price_range = rd_price_range restaurantData \<rparr>
           in Inr (row, s\<lparr> restaurants := restaurants s @ [row],
                           next_id := Suc (next_id s) \<rparr>)))"

text \<open>
  An insert into \<open>restaurant_recommendations\<close>: the pair
  \<open>(video_id, restaurant_id)\<close> is unique, and both ids are foreign keys.
\<close>

definition createRecommendation ::
  "services \<Rightarrow> store \<Rightarrow> recommendation_data \<Rightarrow> string + recommendation_row \<times> store" where
  "createRecommendation env s recommendationData =
     (let failed = (\<lambda>message. Inl (''Failed to create recommendation: '' @ message))
      in (case request_error env (Insert_recommendation recommendationData) of
            Some message \<Rightarrow> failed message
          | None \<Rightarrow>
              if list_ex (\<lambda>row. rr_video_id row = rcd_video_id recommendationData \<and>
                                rr_restaurant_id row = rcd_restaurant_id recommendationData)
                   (restaurant_recommendations s)
              then failed ''duplicate key value violates unique constraint''
              else if \<not> list_ex (\<lambda>v. v_id v = rcd_video_id recommendationData) (videos s) \<or>
                      \<not> list_ex (\<lambda>r. r_id r = rcd_restaurant_id recommendationData)
                          (restaurants s)
              then failed ''insert violates foreign key constraint''
              else (let row = \<lparr> rr_id = next_id s,
                                 rr_video_id = rcd_video_id recommendationData,
                                 rr_restaurant_id = rcd_restaurant_id recommendationData,
                                 rr_confidence_score = rcd_confidence_score recommendationData,
                                 rr_context = rcd_context recommendationData,
                                 rr_dish_mentioned = rcd_dish_mentioned recommendationData,
                                 rr_mentioned_at_timestamp =
                                   rcd_mentioned_at_timestamp recommendationData \<rparr>
                    in Inr (row, s\<lparr> restaurant_recommendations :=
                                       restaurant_recommendations s @ [row],
                                     next_id := Suc (next_id s) \<rparr>))))"

section \<open>Processing orchestrator (the processing routes)\<close>

text \<open>
  A function that writes to the store returns the store it leaves behind together with
  its result, also when it throws: what was written before the exception stays written.
\<close>

record processed_recommendation =
  pr_restaurant :: restaurant
  pr_recommendation :: recommendation_row

record process_result =
  recommendations :: "processed_recommendation list"
  extracted_count :: nat
  processed_count :: nat

text \<open>\<open>video.description || ''\<close>.\<close>

definition description_or_empty :: "video \<Rightarrow> string" where
  "description_or_empty video = (case v_description video of None \<Rightarrow> [] | Some d \<Rightarrow> d)"

text \<open>\<open>!transcript || transcript.trim().length === 0\<close>.\<close>

definition is_blank :: "string \<Rightarrow> bool" where
  "is_blank transcript = (transcript = [] \<or> length (trim transcript) = 0)"

text \<open>
  The \<open>try\<close> and \<open>catch\<close> blocks that fetch the transcript and store it. The
  \<open>catch\<close> block also catches a failed write of the transcript.
\<close>

definition fetch_and_store :: "services \<Rightarrow> store \<Rightarrow> video \<Rightarrow> store \<times> string" where
  "fetch_and_store env s video =
     (case getVideoTranscript env (v_video_id video) of
        Inl message \<Rightarrow> (s, description_or_empty video)
      | Inr transcript \<Rightarrow>
          (case updateVideo env s (v_video_id video)
                  (no_update\<lparr>u_transcript := Some transcript\<rparr>) of
             Inl message \<Rightarrow> (s, description_or_empty video)
           | Inr s1 \<Rightarrow> (s1, transcript)))"

text \<open>
  The first part of \<open>processVideoRecommendations\<close>, up to the check that there is text
  to process.
\<close>

definition acquire_transcript :: "services \<Rightarrow> store \<Rightarrow> video \<Rightarrow> store \<times> (string + string)" where
  "acquire_transcript env s video =
     (case (case v_transcript video of
              None \<Rightarrow> fetch_and_store env s video
            | Some stored \<Rightarrow> if stored = [] then fetch_and_store env s video else (s, stored)) of
        (s1, transcript) \<Rightarrow>
          (let transcript2 =
                 (if is_blank transcript then description_or_empty video else transcript)
           in if is_blank transcript2
              then (s1, Inl ''No transcript or description available for processing'')
              else (s1, Inr transcript2)))"

text \<open>
  A number in the body of a request: \<open>JSON.stringify\<close> writes \<open>NaN\<close> as
  \<open>null\<close>.
\<close>

definition json_number :: "js_number option \<Rightarrow> rat option" where
  "json_number v = (case v of Some (Num x) \<Rightarrow> Some x | _ \<Rightarrow> None)"

text \<open>The body of the \<open>try\<close> block inside the loop over the recommendations.\<close>

definition persist_one ::
  "services \<Rightarrow> video \<Rightarrow> store \<Rightarrow> recommendation \<Rightarrow> store \<times> (string + processed_recommendation)" where
  "persist_one env video s recommendation =
     (let resolved =
            (case findRestaurantByName env s (rec_name recommendation)
                    (rec_location recommendation) of
               Inl message \<Rightarrow> Inl message
             | Inr (first # others) \<Rightarrow> Inr (first, s)
             | Inr [] \<Rightarrow>
                 createRestaurant env s
                   \<lparr> rd_name = rec_name recommendation,
                     rd_address = rec_address recommendation,
                     rd_city = rec_location recommendation,
                     rd_cuisine_type = rec_cuisineType recommendation,
                     rd_price_range = rec_priceRange recommendation \<rparr>)
      in (case resolved of
            Inl message \<Rightarrow> (s, Inl message)
          | Inr (restaurant, s1) \<Rightarrow>
              (case createRecommendation env s1
                      \<lparr> rcd_video_id = v_id video,
                        rcd_restaurant_id = r_id restaurant,
                        rcd_confidence_score = rec_confidenceScore recommendation,
                        rcd_context = rec_context recommendation,
                        rcd_dish_mentioned = rec_dishMentioned recommendation,
                        rcd_mentioned_at_timestamp =
                          json_number (rec_mentionedAt recommendation) \<rparr> of
                 Inl message \<Rightarrow> (s1, Inl message)
               | Inr (recommendationRecord, s2) \<Rightarrow>
                   (s2, Inr \<lparr> pr_restaurant = restaurant,
                             pr_recommendation = recommendationRecord \<rparr>))))"

text \<open>
  The loop: the \<open>catch\<close> block logs the error and the loop goes on with the next
  recommendation.
\<close>

fun persist_loop ::
  "services \<Rightarrow> video \<Rightarrow> recommendation list \<Rightarrow> store \<Rightarrow> processed_recommendation list
     \<Rightarrow> store \<times> processed_recommendation list" where
  "persist_loop env video [] s processedRecommendations = (s, processedRecommendations)"
| "persist_loop env video (recommendation # rest) s processedRecommendations =
     (case persist_one env video s recommendation of
        (s1, Inl message) \<Rightarrow> persist_loop env video rest s1 processedRecommendations
      | (s1, Inr p) \<Rightarrow> persist_loop env video rest s1 (processedRecommendations @ [p]))"

definition mark_processed :: video_update where
  "mark_processed = no_update\<lparr> u_processed := Some True, u_processing_error := Some None \<rparr>"

text \<open>The loop, the final write on the video and the returned object.\<close>

definition persist_and_mark ::
  "services \<Rightarrow> store \<Rightarrow> video \<Rightarrow> recommendation list \<Rightarrow> store \<times> (string + process_result)" where
  "persist_and_mark env s video recs =
     (case persist_loop env video recs s [] of
        (s1, processedRecommendations) \<Rightarrow>
          (case updateVideo env s1 (v_video_id video) mark_processed of
             Inl message \<Rightarrow> (s1, Inl message)
           | Inr s2 \<Rightarrow>
               (s2, Inr \<lparr> recommendations = processedRecommendations,
                         extracted_count = length recs,
                         processed_count = length processedRecommendations \<rparr>)))"

definition processVideoRecommendations ::
  "services \<Rightarrow> store \<Rightarrow> video \<Rightarrow> store \<times> (string + process_result)" where
  "processVideoRecommendations env s video =
     (case acquire_transcript env s video of
        (s1, Inl message) \<Rightarrow> (s1, Inl message)
      | (s1, Inr transcript) \<Rightarrow>
          (case extractRestaurantRecommendations env transcript (v_title video) of
             Inl message \<Rightarrow> (s1, Inl message)
           | Inr extracted \<Rightarrow>
               persist_and_mark env s1 video
                 (enhanceRecommendationsWithTimestamps env (v_video_id video) extracted)))"

subsection \<open>The routes\<close>

record video_report =
  vr_videoId :: string
  vr_title :: string
  vr_recommendations :: nat

record error_report =
  er_videoId :: string
  er_title :: string
  er_error :: string

record batch_results =
  br_processed :: nat
  br_failed :: nat
  br_errors :: "error_report list"
  br_videos_processed :: "video_report list"

record reprocess_results =
  rp_reprocessed :: nat
  rp_failed :: nat
  rp_errors :: "(string \<times> string) list"

datatype response_body =
    Error_body string
  | Video_processed string process_result
  | Batch_empty
  | Batch_completed nat batch_results
  | Reprocess_empty
  | Reprocess_completed nat reprocess_results

record response =
  status :: nat
  body :: response_body

definition mark_failed :: "string \<Rightarrow> video_update" where
  "mark_failed message =
     no_update\<lparr> u_processing_error := Some (Some message), u_processed := Some False \<rparr>"

text \<open>
  The \<open>catch\<close> block of \<open>POST /video/:videoId\<close>: it writes the failure on the
  video of the request, from the store the \<open>try\<close> block left; a failed write of the
  failure is logged and dropped.
\<close>

definition process_video_catch ::
  "services \<Rightarrow> store \<Rightarrow> string \<Rightarrow> string \<Rightarrow> response \<times> store" where
  "process_video_catch env s videoId message =
     (\<lparr> status = 500, body = Error_body message \<rparr>,
      (case updateVideo env s videoId (mark_failed message) of
         Inl updateError \<Rightarrow> s
       | Inr s1 \<Rightarrow> s1))"

text \<open>
  \<open>POST /video/:videoId\<close>. The read of the video stands inside the \<open>try\<close> block,
  so a read that throws goes to the \<open>catch\<close> block like a failure of the processing.
\<close>

definition process_video :: "services \<Rightarrow> store \<Rightarrow> string \<Rightarrow> response \<times> store" where
  "process_video env s videoId =
     (case getVideo env s videoId of
        Inl message \<Rightarrow> process_video_catch env s videoId message
      | Inr None \<Rightarrow> (\<lparr> status = 404, body = Error_body ''Video not found'' \<rparr>, s)
      | Inr (Some video) \<Rightarrow>
          if v_processed video
          then (\<lparr> status = 400, body = Error_body ''Video already processed'' \<rparr>, s)
          else (case processVideoRecommendations env s video of
                  (s1, Inr processingResult) \<Rightarrow>
                    (\<lparr> status = 200, body = Video_processed videoId processingResult \<rparr>, s1)
                | (s1, Inl message) \<Rightarrow> process_video_catch env s1 videoId message))"

text \<open>\<open>video.title?.substring(0, 50) + '...'\<close>.\<close>

definition short_title :: "video \<Rightarrow> string" where
  "short_title video = take 50 (v_title video) @ ''...''"

text \<open>
  The loop of \<open>POST /videos/batch\<close>. The write of a failure is not guarded: when it
  throws, the loop is left for the outer \<open>catch\<close> block.
\<close>

fun batch_loop ::
  "services \<Rightarrow> video list \<Rightarrow> store \<Rightarrow> batch_results \<Rightarrow> store \<times> (string + batch_results)" where
  "batch_loop env [] s results = (s, Inr results)"
| "batch_loop env (video # rest) s results =
     (case processVideoRecommendations env s video of
        (s1, Inr processingResult) \<Rightarrow>
          batch_loop env rest s1
            (results\<lparr> br_processed := br_processed results + 1,
                      br_videos_processed := br_videos_processed results @
                        [\<lparr> vr_videoId = v_video_id video, vr_title = short_title video,
                           vr_recommendations = length (recommendations processingResult) \<rparr>] \<rparr>)
      | (s1, Inl message) \<Rightarrow>
          (case updateVideo env s1 (v_video_id video) (mark_failed message) of
             Inl updateError \<Rightarrow> (s1, Inl updateError)
           | Inr s2 \<Rightarrow>
               batch_loop env rest s2
                 (results\<lparr> br_failed := br_failed results + 1,
                           br_errors := br_errors results @
                             [\<lparr> er_videoId = v_video_id video, er_title = short_title video,
                                er_error = message \<rparr>] \<rparr>)))"

definition process_batch :: "services \<Rightarrow> store \<Rightarrow> nat option \<Rightarrow> response \<times> store" where
  "process_batch env s limit =
     (case getUnprocessedVideos env s (case limit of None \<Rightarrow> 5 | Some n \<Rightarrow> n) of
        Inl message \<Rightarrow> (\<lparr> status = 500, body = Error_body message \<rparr>, s)
      | Inr unprocessedVideos \<Rightarrow>
          if length unprocessedVideos = 0 then (\<lparr> status = 200, body = Batch_empty \<rparr>, s)
          else (case batch_loop env unprocessedVideos s
                       \<lparr> br_processed = 0, br_failed = 0, br_errors = [],
                         br_videos_processed = [] \<rparr> of
                  (s1, Inr results) \<Rightarrow>
                    (\<lparr> status = 200,
                       body = Batch_completed (length unprocessedVideos) results \<rparr>, s1)
                | (s1, Inl message) \<Rightarrow> (\<lparr> status = 500, body = Error_body message \<rparr>, s1)))"

text \<open>
  The loop of \<open>POST /reprocess-failed\<close>. Its \<open>catch\<close> block writes the new error
  message only, and that write is not guarded either.
\<close>

definition set_error :: "string option \<Rightarrow> video_update" where
  "set_error message = no_update\<lparr> u_processing_error := Some message \<rparr>"

definition reprocess_one :: "services \<Rightarrow> store \<Rightarrow> video \<Rightarrow> store \<times> (string + unit)" where
  "reprocess_one env s video =
     (case updateVideo env s (v_video_id video) (set_error None) of
        Inl message \<Rightarrow> (s, Inl message)
      | Inr s1 \<Rightarrow>
          (case processVideoRecommendations env s1 video of
             (s2, Inl message) \<Rightarrow> (s2, Inl message)
           | (s2, Inr processingResult) \<Rightarrow> (s2, Inr ())))"

fun reprocess_loop ::
  "services \<Rightarrow> video list \<Rightarrow> store \<Rightarrow> reprocess_results
     \<Rightarrow> store \<times> (string + reprocess_results)" where
  "reprocess_loop env [] s results = (s, Inr results)"
| "reprocess_loop env (video # rest) s results =
     (case reprocess_one env s video of
        (s1, Inr u) \<Rightarrow>
          reprocess_loop env rest s1 (results\<lparr> rp_reprocessed := rp_reprocessed results + 1 \<rparr>)
      | (s1, Inl message) \<Rightarrow>
          (case updateVideo env s1 (v_video_id video) (set_error (Some message)) of
             Inl updateError \<Rightarrow> (s1, Inl updateError)
           | Inr s2 \<Rightarrow>
               reprocess_loop env rest s2
                 (results\<lparr> rp_failed := rp_failed results + 1,
                           rp_errors := rp_errors results @ [(v_video_id video, message)] \<rparr>)))"

text \<open>
  The read of the failed videos, which the route sends itself: the pair
  \<open>{ data, error }\<close> of the answer, \<open>Inl\<close> the message of the error.
\<close>

definition failed_videos :: "services \<Rightarrow> store \<Rightarrow> nat \<Rightarrow> string + video list" where
  "failed_videos env s limit =
     (case request_error env (Select_failed limit) of
        Some message \<Rightarrow> Inl message
      | None \<Rightarrow>
          Inr (take limit
                 (filter (\<lambda>v. \<not> v_processed v \<and> v_processing_error v \<noteq> None) (videos s))))"

definition reprocess_failed :: "services \<Rightarrow> store \<Rightarrow> nat option \<Rightarrow> response \<times> store" where
  "reprocess_failed env s limit =
     (case failed_videos env s (case limit of None \<Rightarrow> 3 | Some n \<Rightarrow> n) of
        Inl message \<Rightarrow> (\<lparr> status = 500, body = Error_body message \<rparr>, s)
      | Inr failedVideos \<Rightarrow>
          if length failedVideos = 0 then (\<lparr> status = 200, body = Reprocess_empty \<rparr>, s)
          else (case reprocess_loop env failedVideos s
                       \<lparr> rp_reprocessed = 0, rp_failed = 0, rp_errors = [] \<rparr> of
                  (s1, Inr results) \<Rightarrow>
                    (\<lparr> status = 200,
                       body = Reprocess_completed (length failedVideos) results \<rparr>, s1)
                | (s1, Inl message) \<Rightarrow> (\<lparr> status = 500, body = Error_body message \<rparr>, s1)))"

text \<open>
  \<open>POST /add-and-process\<close>. Three steps of it are parameters: the video's details
  from the metadata provider, the id of the influencer row found or created for the
  channel (a table the pipeline does not otherwise touch), and the time of the insert. A failure
  after the video is created is answered with status 500 and writes nothing.
\<close>

record ingestion =
  getVideoDetails :: "string \<Rightarrow> string + video_details"
  resolve_influencer :: "string \<Rightarrow> string + nat"
  now :: nat

text \<open>
  \<open>extractVideoId\<close>: the leftmost place where one of the three URL forms is followed
  by at least one character other than \<open>&\<close>, a line feed, \<open>?\<close> and \<open>#\<close>; the
  result is the longest run of such characters.
\<close>

definition url_forms :: "string list" where
  "url_forms = [''youtube.com/watch?v='', ''youtu.be/'', ''youtube.com/embed/'']"

definition id_char :: "char \<Rightarrow> bool" where
  "id_char c = (c \<notin> {CHR ''&'', CHR 0x0A, CHR ''?'', CHR ''#''})"

fun extractVideoId :: "string \<Rightarrow> string option" where
  "extractVideoId [] = None"
| "extractVideoId (c # cs) =
     (case filter (\<lambda>form. takeWhile id_char (drop (length form) (c # cs)) \<noteq> [])
             (filter (\<lambda>form. prefix form (c # cs)) url_forms) of
        form # others \<Rightarrow> Some (takeWhile id_char (drop (length form) (c # cs)))
      | [] \<Rightarrow> extractVideoId cs)"

text \<open>
  An insert into \<open>videos\<close>: \<open>video_id\<close> is unique; \<open>processed\<close> and
  \<open>processing_error\<close> take their defaults.
\<close>

definition createVideo ::
  "services \<Rightarrow> store \<Rightarrow> nat \<Rightarrow> video_details \<Rightarrow> nat \<Rightarrow> string + video \<times> store" where
  "createVideo env s time videoData influencerId =
     (let failed = (\<lambda>message. Inl (''Failed to create video: '' @ message))
      in (case request_error env (Insert_video videoData influencerId) of
            Some message \<Rightarrow> failed message
          | None \<Rightarrow>
              if list_ex (\<lambda>v. v_video_id v = vdt_videoId videoData) (videos s)
              then failed ''duplicate key value violates unique constraint''
              else (let row = \<lparr> v_id = next_id s,
                                 v_video_id = vdt_videoId videoData,
                                 v_title = vdt_title videoData,
                                 v_description = vdt_description videoData,
                                 v_duration = vdt_duration videoData,
                                 v_transcript = None,
                                 v_processed = False,
                                 v_processing_error = None,
                                 v_created_at = time \<rparr>
                    in Inr (row, s\<lparr> videos := videos s @ [row],
                                     next_id := Suc (next_id s) \<rparr>))))"

datatype add_body =
    Add_error string
  | Add_exists video
  | Add_processed video process_result

definition add_and_process ::
  "services \<Rightarrow> ingestion \<Rightarrow> store \<Rightarrow> string option \<Rightarrow> (nat \<times> add_body) \<times> store" where
  "add_and_process env ing s videoUrl =
     (if \<not> truthy_str videoUrl then ((400, Add_error ''Video URL is required''), s)
      else (case extractVideoId (case videoUrl of None \<Rightarrow> [] | Some u \<Rightarrow> u) of
              None \<Rightarrow> ((400, Add_error ''Invalid YouTube video URL''), s)
            | Some videoId \<Rightarrow>
                (case getVideo env s videoId of
                   Inl message \<Rightarrow> ((500, Add_error message), s)
                 | Inr (Some existingVideo) \<Rightarrow> ((409, Add_exists existingVideo), s)
                 | Inr None \<Rightarrow>
                     (case getVideoDetails ing videoId of
                        Inl message \<Rightarrow> ((500, Add_error message), s)
                      | Inr videoDetails \<Rightarrow>
                          (case resolve_influencer ing (vdt_channelId videoDetails) of
                             Inl message \<Rightarrow> ((500, Add_error message), s)
                           | Inr influencerId \<Rightarrow>
                               (case createVideo env s (now ing) videoDetails influencerId of
                                  Inl message \<Rightarrow> ((500, Add_error message), s)
                                | Inr (video, s1) \<Rightarrow>
                                    (case processVideoRecommendations env s1 video of
                                       (s2, Inl message) \<Rightarrow> ((500, Add_error message), s2)
                                     | (s2, Inr processingResult) \<Rightarrow>
                                         ((201, Add_processed video processingResult), s2))))))))"

section \<open>Invariants of the video table\<close>

text \<open>
  A processed video carries no processing error; \<open>video_id\<close> is unique, as the schema
  declares it.
\<close>

definition video_ok :: "video \<Rightarrow> bool" where
  "video_ok v = (if v_processed v then v_processing_error v = None else True)"

definition store_ok :: "store \<Rightarrow> bool" where
  "store_ok s = list_all video_ok (videos s)"

definition unique_video_ids :: "store \<Rightarrow> bool" where
  "unique_video_ids s = distinct (map v_video_id (videos s))"

text \<open>
  How a row \<open>v\<close> may differ from the row \<open>v'\<close> that takes its place after work on
  the video \<open>videoId\<close>: the row keeps its \<open>video_id\<close>, and a row of another video is
  unchanged. \<open>flags_kept\<close> adds that the two processing fields are unchanged,
  \<open>ok_kept\<close> that the row still satisfies the invariant if it did.
\<close>

definition same_video :: "string \<Rightarrow> video \<Rightarrow> video \<Rightarrow> bool" where
  "same_video videoId v v' =
     (v_video_id v' = v_video_id v \<and> (if v_video_id v = videoId then True else v' = v))"

definition flags_kept :: "string \<Rightarrow> video \<Rightarrow> video \<Rightarrow> bool" where
  "flags_kept videoId v v' =
     (same_video videoId v v' \<and> v_processed v' = v_processed v \<and>
      v_processing_error v' = v_processing_error v)"

definition ok_kept :: "string \<Rightarrow> video \<Rightarrow> video \<Rightarrow> bool" where
  "ok_kept videoId v v' = (same_video videoId v v' \<and> (if video_ok v then video_ok v' else True))"

text \<open>No row of the video \<open>videoId\<close> is marked processed.\<close>

definition pending :: "store \<Rightarrow> string \<Rightarrow> bool" where
  "pending s videoId =
     list_all (\<lambda>v. if v_video_id v = videoId then \<not> v_processed v else True) (videos s)"

section \<open>Sample inputs\<close>

text \<open>
  A video without captions whose fallback provider answers with two characters, a model
  response with three candidates (the second names the same restaurant as the first, the
  third carries a confidence of 0), and a store holding one pending and one processed
  video.
\<close>

definition sample_captions :: "caption_entry list" where
  "sample_captions =
     [\<lparr> ce_text = Some ''Today we visit'', ce_offset = Some 0 \<rparr>,
      \<lparr> ce_text = Some ''Pasta House in Rome'', ce_offset = Some 5400 \<rparr>,
      \<lparr> ce_text = Some ''amazing carbonara'', ce_offset = Some 9100 \<rparr>]"

definition sample_raw :: "string \<Rightarrow> rat option \<Rightarrow> raw_restaurant" where
  "sample_raw n c =
     \<lparr> raw_name = Some n, raw_location = Some ''Rome'', raw_address = None,
       raw_cuisineType = Some ''Italian'', raw_dishMentioned = Some ''carbonara'',
       raw_context = Some ''amazing carbonara'', raw_confidenceScore = c,
       raw_priceRange = Some ''$$'', raw_mentionedAt = Some 450 \<rparr>"

definition sample_response :: raw_response where
  "sample_response =
     Some [sample_raw ''Pasta House'' (Some (9 / 10)),
           sample_raw ''Pasta House'' (Some (7 / 10)),
           sample_raw ''Cafe Zero'' (Some 0)]"

definition sample_services :: services where
  "sample_services =
     \<lparr> fetchTranscript_text = (\<lambda>videoId. Inl ''Transcript is disabled on this video''),
       fetchTranscript_timed = (\<lambda>videoId. Inr (Entries sample_captions)),
       rapidApi = (\<lambda>videoId. Axios_response (RT_string ''Hi'')),
       openai_complete = (\<lambda>transcript title. Inr ''{}''),
       json_parse = (\<lambda>content. Inr sample_response),
       ilike = (\<lambda>pattern v. str_includes (toLowerCase v) (toLowerCase (butlast (tl pattern)))),
       request_error = (\<lambda>request. None) \<rparr>"

definition sample_video :: "string \<Rightarrow> bool \<Rightarrow> video" where
  "sample_video videoId done =
     \<lparr> v_id = (if done then 1 else 2), v_video_id = videoId, v_title = ''Rome Food Tour'',
       v_description = Some ''I went to Pasta House in Rome, amazing carbonara!'',
       v_duration = Some ''PT12M30S'', v_transcript = None, v_processed = done,
       v_processing_error = None, v_created_at = (if done then 10 else 20) \<rparr>"

definition sample_store :: store where
  "sample_store =
     \<lparr> videos = [sample_video ''done1'' True, sample_video ''todo2'' False],
       restaurants = [], restaurant_recommendations = [], next_id = 3 \<rparr>"

definition sample_timed :: "timed_entry list" where
  "sample_timed =
     [\<lparr> te_text = ''today we visit'', te_timestamp = Num 0, te_offset = Some 0 \<rparr>,
      \<lparr> te_text = ''pasta house in rome'', te_timestamp = Num 5, te_offset = Some 5400 \<rparr>,
      \<lparr> te_text = ''amazing carbonara'', te_timestamp = Num 9, te_offset = Some 9100 \<rparr>]"

definition sample_candidate :: "string \<Rightarrow> string option \<Rightarrow> recommendation" where
  "sample_candidate n c =
     \<lparr> rec_name = n, rec_location = Some ''Rome'', rec_address = None,
       rec_cuisineType = None, rec_dishMentioned = None, rec_context = c,
       rec_confidenceScore = 9 / 10, rec_priceRange = None,
       rec_mentionedAt = Some (Num 450) \<rparr>"

definition sample_candidates :: "recommendation list" where
  "sample_candidates =
     [sample_candidate ''Pasta House'' (Some ''amazing carbonara''),
      sample_candidate ''Sushi Den'' None]"

text \<open>
  Variants of the services: one whose captioning library throws, one whose last caption
  entry has no text, one whose library answers \<open>false\<close>, one whose caption entries
  have no offset, and three whose database answers some requests with an error: every
  insert of a restaurant, every read of a video, every write on a video.
\<close>

definition silent_services :: services where
  "silent_services =
     sample_services\<lparr> fetchTranscript_timed :=
                        (\<lambda>videoId. Inl ''Transcript is disabled on this video'') \<rparr>"

definition broken_captions :: "caption_entry list" where
  "broken_captions = sample_captions @ [\<lparr> ce_text = None, ce_offset = Some 12000 \<rparr>]"

definition broken_services :: services where
  "broken_services =
     sample_services\<lparr> fetchTranscript_timed := (\<lambda>videoId. Inr (Entries broken_captions)) \<rparr>"

definition falsy_services :: services where
  "falsy_services = sample_services\<lparr> fetchTranscript_timed := (\<lambda>videoId. Inr Falsy) \<rparr>"

definition offsetless_captions :: "caption_entry list" where
  "offsetless_captions = map (\<lambda>entry. entry\<lparr> ce_offset := None \<rparr>) sample_captions"

definition offsetless_services :: services where
  "offsetless_services =
     sample_services\<lparr> fetchTranscript_timed := (\<lambda>videoId. Inr (Entries offsetless_captions)) \<rparr>"

definition refusing_services :: services where
  "refusing_services =
     sample_services\<lparr> request_error :=
                        (\<lambda>request. case request of
                           Insert_restaurant row \<Rightarrow>
                             Some ''value too long for type character varying(255)''
                         | _ \<Rightarrow> None) \<rparr>"

definition unreadable_services :: services where
  "unreadable_services =
     sample_services\<lparr> request_error :=
                        (\<lambda>request. case request of
                           Select_video videoId \<Rightarrow> Some ''fetch failed''
                         | _ \<Rightarrow> None) \<rparr>"

definition unwritable_services :: services where
  "unwritable_services =
     sample_services\<lparr> request_error :=
                        (\<lambda>request. case request of
                           Update_video videoId updates \<Rightarrow> Some ''fetch failed''
                         | _ \<Rightarrow> None) \<rparr>"

text \<open>
  The candidates the validation makes of the sample response, and services whose
  completion endpoint fails.
\<close>

definition sample_extracted :: "recommendation list" where
  "sample_extracted = validateAndFormatRecommendations sample_response"

definition failing_services :: services where
  "failing_services =
     sample_services\<lparr> openai_complete := (\<lambda>transcript title. Inl ''Request timed out.'') \<rparr>"

section \<open>Duration filter: properties\<close>

text \<open>
  C6, as the code has it. The predicate accepts a video exactly when its duration is at
  least 120 seconds and its lowercased title contains none of the six keywords. So it
  returns false for every duration below 120 seconds and true for every duration of 120
  seconds or more whose title has no keyword: a video of exactly 120 seconds is accepted.
\<close>

theorem suitable_iff_two_minutes_and_no_keyword:
  "isVideoSuitableForProcessing video =
     (120 \<le> parseDuration (vd_duration video) \<and>
      \<not> list_ex (\<lambda>keyword. str_includes (toLowerCase (vd_title video)) keyword)
          [''music'', ''live stream'', ''shorts'', ''compilation'', ''trailer'', ''announcement''])"
  by (auto simp add: isVideoSuitableForProcessing_def Let_def nonFoodKeywords_def)

text \<open>
  C6 as stated fails at a duration of exactly two minutes: \<open>PT2M\<close> is 120 seconds, which
  is not above 120, and the predicate still accepts the video.
\<close>

theorem suitable_at_exactly_two_minutes:
  "parseDuration (Some ''PT2M'') \<le> 120 \<and>
   isVideoSuitableForProcessing \<lparr> vd_duration = Some ''PT2M'', vd_title = ''Street Food Tour'' \<rparr>"
  by code_simp

text \<open>
  C7, as the code has it. The predicate fails closed on duration: a video whose duration
  parses to zero is rejected whatever its title, and a missing duration or one without
  \<open>PT\<close> in it parses to zero. Failing open is what the filter of the unprocessed-video
  query does, and only for a row whose duration is missing; a row whose duration is a
  string that parses to zero is filtered out there as well.
\<close>

theorem unknown_duration_rejected:
  "(parseDuration (vd_duration video) = 0 \<longrightarrow> \<not> isVideoSuitableForProcessing video) \<and>
   parseDuration None = 0 \<and>
   (after_PT d = None \<longrightarrow> parseDuration (Some d) = 0) \<and>
   (\<not> truthy_str (v_duration row) \<longrightarrow> duration_filter row) \<and>
   (truthy_str (v_duration row) \<and> parseDuration (v_duration row) = 0 \<longrightarrow> \<not> duration_filter row)"
  by (simp add: isVideoSuitableForProcessing_def Let_def duration_filter_def parseDuration_def)

theorem unknown_duration_rejected_witness:
  "parseDuration (vd_duration \<lparr> vd_duration = Some ''soon'', vd_title = ''Street Food Tour'' \<rparr>) = 0 \<and>
   \<not> isVideoSuitableForProcessing \<lparr> vd_duration = Some ''soon'', vd_title = ''Street Food Tour'' \<rparr> \<and>
   after_PT ''soon'' = None \<and> parseDuration (Some ''soon'') = 0 \<and>
   \<not> truthy_str (v_duration ((sample_video ''todo2'' False)\<lparr> v_duration := None \<rparr>)) \<and>
   duration_filter ((sample_video ''todo2'' False)\<lparr> v_duration := None \<rparr>) \<and>
   truthy_str (v_duration ((sample_video ''todo2'' False)\<lparr> v_duration := Some ''soon'' \<rparr>)) \<and>
   parseDuration (v_duration ((sample_video ''todo2'' False)\<lparr> v_duration := Some ''soon'' \<rparr>)) = 0 \<and>
   \<not> duration_filter ((sample_video ''todo2'' False)\<lparr> v_duration := Some ''soon'' \<rparr>)"
proof -
  have a: "parseDuration (vd_duration \<lparr> vd_duration = Some ''soon'', vd_title = ''Street Food Tour'' \<rparr>) = 0"
    by code_simp
  have b: "after_PT ''soon'' = None"
    by code_simp
  have c: "\<not> truthy_str (v_duration ((sample_video ''todo2'' False)\<lparr> v_duration := None \<rparr>))"
    by (simp add: truthy_str_def)
  have d: "truthy_str (v_duration ((sample_video ''todo2'' False)\<lparr> v_duration := Some ''soon'' \<rparr>))"
    by (simp add: truthy_str_def)
  have e: "parseDuration (v_duration ((sample_video ''todo2'' False)\<lparr> v_duration := Some ''soon'' \<rparr>)) = 0"
    by code_simp
  have f: "duration_filter ((sample_video ''todo2'' False)\<lparr> v_duration := None \<rparr>)"
    using c
      unknown_duration_rejected
        [of "\<lparr> vd_duration = Some ''soon'', vd_title = ''Street Food Tour'' \<rparr>" "''soon''"
            "(sample_video ''todo2'' False)\<lparr> v_duration := None \<rparr>"]
    by blast
  show ?thesis
    using a b c d e f
      unknown_duration_rejected
        [of "\<lparr> vd_duration = Some ''soon'', vd_title = ''Street Food Tour'' \<rparr>" "''soon''"
            "(sample_video ''todo2'' False)\<lparr> v_duration := Some ''soon'' \<rparr>"]
    by blast
qed

text \<open>
  C7 as stated fails for a video with no duration and a title without keywords: its
  duration parses to zero and the predicate rejects it.
\<close>

theorem missing_duration_not_suitable:
  "parseDuration None = 0 \<and>
   \<not> list_ex (\<lambda>keyword. str_includes (toLowerCase ''Street Food Tour'') keyword) nonFoodKeywords \<and>
   \<not> isVideoSuitableForProcessing \<lparr> vd_duration = None, vd_title = ''Street Food Tour'' \<rparr>"
  by code_simp

section \<open>Recommendation extractor: properties\<close>

text \<open>What the validation does keep and drop.\<close>

lemma passes_validation_name:
  "passes_validation restaurant \<Longrightarrow> \<exists>n. raw_name restaurant = Some n \<and> n \<noteq> [] \<and> trim n \<noteq> []"
  by (auto simp add: passes_validation_def truthy_str_def split: option.splits)

lemma format_confidence:
  "passes_validation restaurant \<Longrightarrow> 6 / 10 \<le> rec_confidenceScore (format_restaurant restaurant)"
  by (auto simp add: passes_validation_def format_restaurant_def truthy_num_def num_ge_def
      split: option.splits)

lemma validated_confidence:
  "r \<in> set (validateAndFormatRecommendations response) \<Longrightarrow> 6 / 10 \<le> rec_confidenceScore r"
proof -
  assume "r \<in> set (validateAndFormatRecommendations response)"
  then obtain x where "r = format_restaurant x" and "passes_validation x"
    by (auto simp add: validateAndFormatRecommendations_def split: option.splits)
  then show ?thesis
    using format_confidence [of x] by simp
qed

lemma low_confidence_dropped:
  "raw_confidenceScore restaurant = Some c \<Longrightarrow> c < 6 / 10 \<Longrightarrow> c \<noteq> 0 \<Longrightarrow>
   \<not> passes_validation restaurant"
  by (simp add: passes_validation_def truthy_num_def num_ge_def)

lemma absent_confidence_defaults:
  "raw_confidenceScore restaurant = None \<Longrightarrow>
   rec_confidenceScore (format_restaurant restaurant) = 8 / 10"
  by (simp add: format_restaurant_def truthy_num_def)

text \<open>
  C2 at a candidate whose confidence field is present and 0. The filter tests
  \<open>confidenceScore >= 0.6 || !confidenceScore\<close> and 0 is falsy, so the candidate is
  kept, and \<open>confidenceScore || 0.8\<close> then gives it the default confidence 0.8.
\<close>

theorem zero_confidence_kept:
  "map (\<lambda>r. (rec_name r, rec_confidenceScore r))
     (validateAndFormatRecommendations (Some [sample_raw ''Cafe Zero'' (Some 0)])) =
   [(''Cafe Zero'', 8 / 10)]"
  by code_simp

section \<open>Transcript acquirer: properties\<close>

text \<open>
  What the acquirer does: a transcript from the primary source is returned only when
  its trimmed text is longer than 50 characters; when the primary source fails, the text
  of the fallback provider is returned as it is.
\<close>

lemma primary_transcript_usable:
  "youtube_transcript env videoId = Inr transcript \<Longrightarrow> 50 < length (trim transcript)"
  by (auto simp add: youtube_transcript_def Let_def
      split: sum.splits transcript_answer.splits if_splits)

lemma primary_transcript_returned:
  "youtube_transcript env videoId = Inr transcript \<Longrightarrow>
   getVideoTranscript env videoId = Inr transcript"
  by (simp add: getVideoTranscript_def)

lemma fallback_transcript_returned:
  "youtube_transcript env videoId = Inl message \<Longrightarrow>
   getRapidApiTranscript env videoId = Inr transcript \<Longrightarrow>
   getVideoTranscript env videoId = Inr transcript"
  by (simp add: getVideoTranscript_def)

text \<open>
  C5 at a video whose captions are disabled and whose fallback provider answers with
  the two characters \<open>Hi\<close>: the primary source fails, the fallback text is not longer
  than 50 characters, and it is returned as the transcript.
\<close>

theorem short_fallback_transcript_returned:
  "youtube_transcript sample_services ''todo2'' = Inl ''Transcript is disabled on this video'' \<and>
   \<not> 50 < length (trim ''Hi'') \<and>
   getVideoTranscript sample_services ''todo2'' = Inr ''Hi''"
  by code_simp

section \<open>Processing orchestrator: properties\<close>

text \<open>
  When the read of the video succeeds and the stored record has \<open>processed = true\<close>,
  the single-video route answers with status 400 and the message \<open>Video already
  processed\<close>, and the store it leaves is the store it was given: no table has a row
  added or changed.
\<close>

lemma processed_video_conflict:
  assumes "getVideo env s videoId = Inr (Some video)" and "v_processed video"
  shows "process_video env s videoId =
           (\<lparr> status = 400, body = Error_body ''Video already processed'' \<rparr>, s)"
  using assms by (simp add: process_video_def)

lemma processed_video_conflict_sample:
  "getVideo sample_services sample_store ''done1'' = Inr (Some (sample_video ''done1'' True)) \<and>
   v_processed (sample_video ''done1'' True) \<and>
   process_video sample_services sample_store ''done1'' =
     (\<lparr> status = 400, body = Error_body ''Video already processed'' \<rparr>, sample_store)"
proof -
  have a: "getVideo sample_services sample_store ''done1'' =
             Inr (Some (sample_video ''done1'' True))"
    by (simp add: getVideo_def video_row_def sample_services_def sample_store_def
        sample_video_def)
  have b: "v_processed (sample_video ''done1'' True)"
    by (simp add: sample_video_def)
  show ?thesis
    using a b processed_video_conflict [OF a b] by simp
qed

text \<open>
  C1 at a processed video whose read the database answers with an error. The record of
  \<open>done1\<close> has \<open>processed = true\<close> and no error. The read throws inside the
  \<open>try\<close> block of the route, and its \<open>catch\<close> block, written for a failure of the
  processing, writes \<open>processed = false\<close> and the message of the error on the record:
  the route answers with status 500, not with the rejection, and the record of the
  processed video is changed.
\<close>

theorem failed_read_marks_processed_video_failed:
  "video_row sample_store ''done1'' = Some (sample_video ''done1'' True) \<and>
   v_processed (sample_video ''done1'' True) \<and>
   v_processing_error (sample_video ''done1'' True) = None \<and>
   getVideo unreadable_services sample_store ''done1'' =
     Inl ''Failed to get video: fetch failed'' \<and>
   process_video unreadable_services sample_store ''done1'' =
     (\<lparr> status = 500, body = Error_body ''Failed to get video: fetch failed'' \<rparr>,
      sample_store\<lparr> videos :=
        [(sample_video ''done1'' True)
           \<lparr> v_processed := False,
             v_processing_error := Some ''Failed to get video: fetch failed'' \<rparr>,
         sample_video ''todo2'' False] \<rparr>)"
  by code_simp

section \<open>Timestamp reconciler: properties\<close>

text \<open>The loop over the search terms computes the weighted sum.\<close>

lemma window_score_weighted:
  "foldl (\<lambda>score term.
              if str_includes text term
              then (if term = lowerName then score + 1 + 2 else score + 1)
              else score) a terms = a + weighted_hits terms lowerName text"
  by (induction terms arbitrary: a) (simp_all add: weighted_hits_def term_weight_def)

lemma window_score_eq: "window_score terms lowerName text = weighted_hits terms lowerName text"
  by (simp add: window_score_def window_score_weighted)

text \<open>The window of position \<open>i\<close> holds the entries \<open>i - 2\<close> to \<open>i + 2\<close> that exist.\<close>

lemma take_drop_nth:
  "take k (drop m xs) = map (\<lambda>j. xs ! j) [m ..< min (length xs) (m + k)]"
proof (rule nth_equalityI)
  show "length (take k (drop m xs)) = length (map (\<lambda>j. xs ! j) [m ..< min (length xs) (m + k)])"
    by (auto simp add: min_def)
next
  fix i
  assume "i < length (take k (drop m xs))"
  then have "i < k" and "m + i < length xs"
    by auto
  then show "take k (drop m xs) ! i = map (\<lambda>j. xs ! j) [m ..< min (length xs) (m + k)] ! i"
    by simp
qed

lemma contextWindow_nth:
  "i < length tt \<Longrightarrow> contextWindow tt i = map (\<lambda>j. tt ! j) [i - 2 ..< min (length tt) (i + 3)]"
  by (auto simp add: contextWindow_def Let_def take_drop_nth min_def)

lemma windowText_eq:
  "i < length tt \<Longrightarrow>
   window_score (searchTerms_of name ctx) (toLowerCase name) (windowText tt i) = position_score tt name ctx i"
  by (simp add: window_score_eq position_score_def windowText_def contextWindow_nth comp_def)

text \<open>
  A loop that replaces the best pair on a strictly higher score ends with the first
  position of the highest score, or with nothing when every score is 0.
\<close>

lemma scan_fold:
  fixes f :: "nat \<Rightarrow> nat" and g :: "nat \<Rightarrow> 'a"
  shows "(case foldl (\<lambda>best i. if snd best < f i then (Some (g i), f i) else best) (None, 0) [0..<n] of
           (bm, bs) \<Rightarrow>
             (bs = 0 \<and> bm = None \<and> (\<forall>i<n. f i = 0)) \<or>
             (\<exists>i<n. bm = Some (g i) \<and> bs = f i \<and> 0 < bs \<and> (\<forall>j<n. f j \<le> f i) \<and> (\<forall>j<i. f j < f i)))"
proof (induction n)
  case 0
  then show ?case by simp
next
  case (Suc n)
  obtain bm bs where fold: "foldl (\<lambda>best i. if snd best < f i then (Some (g i), f i) else best) (None, 0) [0..<n] = (bm, bs)"
    by (cases "foldl (\<lambda>best i. if snd best < f i then (Some (g i), f i) else best) (None, 0) [0..<n]") auto
  from Suc fold have IH:
    "(bs = 0 \<and> bm = None \<and> (\<forall>i<n. f i = 0)) \<or>
     (\<exists>i<n. bm = Some (g i) \<and> bs = f i \<and> 0 < bs \<and> (\<forall>j<n. f j \<le> f i) \<and> (\<forall>j<i. f j < f i))"
    by simp
  show ?case
  proof (cases "bs < f n")
    case True
    have "\<forall>j<n. f j < f n"
      using IH True by (metis le_less_trans)
    then have "\<exists>i<Suc n. Some (g n) = Some (g i) \<and> f n = f i \<and> 0 < f n \<and> (\<forall>j<Suc n. f j \<le> f i) \<and> (\<forall>j<i. f j < f i)"
      using True by (intro exI[of _ n]) (auto simp add: less_Suc_eq)
    then show ?thesis using fold True by simp
  next
    case False
    then have le: "f n \<le> bs" by simp
    from IH show ?thesis
    proof
      assume a: "bs = 0 \<and> bm = None \<and> (\<forall>i<n. f i = 0)"
      then have "\<forall>i<Suc n. f i = 0" using le by (auto simp add: less_Suc_eq)
      then show ?thesis using fold False a by simp
    next
      assume "\<exists>i<n. bm = Some (g i) \<and> bs = f i \<and> 0 < bs \<and> (\<forall>j<n. f j \<le> f i) \<and> (\<forall>j<i. f j < f i)"
      then obtain i where i: "i < n" "bm = Some (g i)" "bs = f i" "0 < bs" "\<forall>j<n. f j \<le> f i" "\<forall>j<i. f j < f i"
        by blast
      then have "i < Suc n \<and> bm = Some (g i) \<and> bs = f i \<and> 0 < bs \<and> (\<forall>j<Suc n. f j \<le> f i) \<and> (\<forall>j<i. f j < f i)"
        using le by (auto simp add: less_Suc_eq)
      then show ?thesis using fold False by auto
    qed
  qed
qed

text \<open>The lowered transcript: it exists exactly when every entry has a text.\<close>

lemma timestampedText_of_Inr:
  "timestampedText_of entries = Inr tt \<Longrightarrow>
   length tt = length entries \<and>
   (\<forall>i<length entries. \<exists>t. ce_text (entries ! i) = Some t \<and> te_text (tt ! i) = toLowerCase t \<and>
        te_timestamp (tt ! i) = whole_seconds (ce_offset (entries ! i)))"
proof (induction entries arbitrary: tt)
  case Nil
  then show ?case by simp
next
  case (Cons entry entries)
  from Cons.prems obtain t rest where t: "ce_text entry = Some t"
    and rest: "timestampedText_of entries = Inr rest"
    and tt: "tt = \<lparr> te_text = toLowerCase t, te_timestamp = whole_seconds (ce_offset entry),
                     te_offset = ce_offset entry \<rparr> # rest"
    by (auto split: option.splits sum.splits)
  from Cons.IH [OF rest] show ?case
    using t tt by (auto simp add: nth_Cons split: nat.splits)
qed

lemma timestampedText_of_well_formed:
  "\<forall>e\<in>set entries. ce_text e \<noteq> None \<Longrightarrow> \<exists>tt. timestampedText_of entries = Inr tt"
  by (induction entries) auto

lemma timestampedText_of_malformed:
  "\<exists>e\<in>set entries. ce_text e = None \<Longrightarrow> timestampedText_of entries = Inl type_error"
proof (induction entries)
  case Nil
  then show ?case by simp
next
  case (Cons entry entries)
  show ?case
  proof (cases "ce_text entry")
    case None
    then show ?thesis by simp
  next
    case (Some t)
    with Cons.prems have "\<exists>e\<in>set entries. ce_text e = None" by auto
    with Cons.IH Some show ?thesis by simp
  qed
qed

lemma best_match_first_best:
  "(case best_match tt name ctx of
      (bm, bs) \<Rightarrow>
        (bs = 0 \<and> bm = None \<and> (\<forall>i<length tt. position_score tt name ctx i = 0)) \<or>
        (\<exists>i<length tt. bm = Some (te_timestamp (tt ! i)) \<and> bs = position_score tt name ctx i \<and>
            0 < bs \<and> (\<forall>j<length tt. position_score tt name ctx j \<le> position_score tt name ctx i) \<and>
            (\<forall>j<i. position_score tt name ctx j < position_score tt name ctx i)))"
proof -
  have "best_match tt name ctx =
        foldl (\<lambda>best i. if snd best < position_score tt name ctx i
                         then (Some (te_timestamp (tt ! i)), position_score tt name ctx i)
                         else best) (None, 0) [0..<length tt]"
    unfolding best_match_def
    by (rule foldl_cong) (auto simp add: scan_step_def Let_def windowText_eq)
  then show ?thesis
    using scan_fold [where f = "position_score tt name ctx" and g = "\<lambda>i. te_timestamp (tt ! i)"
        and n = "length tt"]
    by simp
qed

text \<open>
  C8, as the code has it. On a non-empty transcript whose entries all carry a text, an
  entry becomes its lowercased text and the whole seconds of its offset (\<open>NaN\<close> when
  the entry has no numeric offset). The score of
  position \<open>i\<close> is \<open>position_score\<close>: over the list of search terms (the lowercased
  name, its pieces between single spaces and the pieces of the lowercased context longer
  than 3 characters, keeping the terms longer than 2 characters, repetitions included),
  every term that occurs in the joined texts of the entries \<open>i - 2\<close> to \<open>i + 2\<close>
  counts 1, and 3 when it is the lowercased name. When no position scores 2 or more the
  result is \<open>null\<close>; otherwise it is the timestamp of the first position that has
  the highest score.
\<close>

theorem find_timestamp_first_best_window:
  assumes "timestampedText_of entries = Inr tt" and "entries \<noteq> []"
  shows "length tt = length entries \<and>
     (\<forall>i<length entries. \<exists>t. ce_text (entries ! i) = Some t \<and> te_text (tt ! i) = toLowerCase t \<and>
          te_timestamp (tt ! i) =
            (case ce_offset (entries ! i) of
               None \<Rightarrow> NaN
             | Some x \<Rightarrow> Num (of_int \<lfloor>x / 1000\<rfloor>))) \<and>
     ((\<forall>i<length tt. position_score tt name ctx i < 2) \<longrightarrow>
        findRestaurantTimestamp (Entries entries) name ctx = Inr None) \<and>
     ((\<exists>i<length tt. 2 \<le> position_score tt name ctx i) \<longrightarrow>
        (\<exists>i<length tt.
            findRestaurantTimestamp (Entries entries) name ctx = Inr (Some (te_timestamp (tt ! i))) \<and>
            2 \<le> position_score tt name ctx i \<and>
            (\<forall>j<length tt. position_score tt name ctx j \<le> position_score tt name ctx i) \<and>
            (\<forall>j<i. position_score tt name ctx j < position_score tt name ctx i)))"
proof -
  obtain bm bs where best: "best_match tt name ctx = (bm, bs)"
    by (cases "best_match tt name ctx") auto
  have find: "findRestaurantTimestamp (Entries entries) name ctx = Inr (if 2 \<le> bs then bm else None)"
    using assms best by (simp add: findRestaurantTimestamp_def)
  from best_match_first_best [of tt name ctx] best
  have char: "(bs = 0 \<and> bm = None \<and> (\<forall>i<length tt. position_score tt name ctx i = 0)) \<or>
        (\<exists>i<length tt. bm = Some (te_timestamp (tt ! i)) \<and> bs = position_score tt name ctx i \<and>
            0 < bs \<and> (\<forall>j<length tt. position_score tt name ctx j \<le> position_score tt name ctx i) \<and>
            (\<forall>j<i. position_score tt name ctx j < position_score tt name ctx i))"
    by simp
  have low: "findRestaurantTimestamp (Entries entries) name ctx = Inr None"
    if "\<forall>i<length tt. position_score tt name ctx i < 2"
  proof -
    from char that have "bs < 2" by auto
    with find show ?thesis by simp
  qed
  have high: "\<exists>i<length tt.
            findRestaurantTimestamp (Entries entries) name ctx = Inr (Some (te_timestamp (tt ! i))) \<and>
            2 \<le> position_score tt name ctx i \<and>
            (\<forall>j<length tt. position_score tt name ctx j \<le> position_score tt name ctx i) \<and>
            (\<forall>j<i. position_score tt name ctx j < position_score tt name ctx i)"
    if "\<exists>i<length tt. 2 \<le> position_score tt name ctx i"
  proof -
    from that obtain k where k: "k < length tt" "2 \<le> position_score tt name ctx k" by blast
    from char k obtain i where i: "i < length tt" "bm = Some (te_timestamp (tt ! i))"
      "bs = position_score tt name ctx i"
      "\<forall>j<length tt. position_score tt name ctx j \<le> position_score tt name ctx i"
      "\<forall>j<i. position_score tt name ctx j < position_score tt name ctx i"
      by force
    from i k have "2 \<le> bs" by (metis le_trans)
    with i find show ?thesis by auto
  qed
  have entries: "length tt = length entries \<and>
     (\<forall>i<length entries. \<exists>t. ce_text (entries ! i) = Some t \<and> te_text (tt ! i) = toLowerCase t \<and>
          te_timestamp (tt ! i) =
            (case ce_offset (entries ! i) of
               None \<Rightarrow> NaN
             | Some x \<Rightarrow> Num (of_int \<lfloor>x / 1000\<rfloor>)))"
    using timestampedText_of_Inr [OF assms(1)] by (simp add: whole_seconds_def)
  from entries low high show ?thesis by blast
qed

theorem find_timestamp_first_best_window_witness:
  "timestampedText_of sample_captions = Inr sample_timed \<and> sample_captions \<noteq> [] \<and>
   (\<exists>i<length sample_timed.
       2 \<le> position_score sample_timed ''Pasta House'' (Some ''amazing carbonara'') i) \<and>
   (\<exists>i<length sample_timed.
       findRestaurantTimestamp (Entries sample_captions) ''Pasta House'' (Some ''amazing carbonara'') =
         Inr (Some (te_timestamp (sample_timed ! i))) \<and>
       2 \<le> position_score sample_timed ''Pasta House'' (Some ''amazing carbonara'') i) \<and>
   list_all (\<lambda>i. position_score sample_timed ''Sushi Den'' None i < 2) [0..<length sample_timed] \<and>
   findRestaurantTimestamp (Entries sample_captions) ''Sushi Den'' None = Inr None"
proof -
  have a: "timestampedText_of sample_captions = Inr sample_timed"
    by code_simp
  have b: "sample_captions \<noteq> []"
    by (simp add: sample_captions_def)
  have "2 \<le> position_score sample_timed ''Pasta House'' (Some ''amazing carbonara'') 0"
    by code_simp
  moreover have "0 < length sample_timed"
    by (simp add: sample_timed_def)
  ultimately have c: "\<exists>i<length sample_timed.
       2 \<le> position_score sample_timed ''Pasta House'' (Some ''amazing carbonara'') i"
    by blast
  have d: "list_all (\<lambda>i. position_score sample_timed ''Sushi Den'' None i < 2)
             [0..<length sample_timed]"
    by code_simp
  then have d': "\<forall>i<length sample_timed. position_score sample_timed ''Sushi Den'' None i < 2"
    by (simp add: list_all_iff)
  have e: "findRestaurantTimestamp (Entries sample_captions) ''Sushi Den'' None = Inr None"
    using d' find_timestamp_first_best_window [OF a b, of "''Sushi Den''" None]
    by blast
  from find_timestamp_first_best_window
         [OF a b, of "''Pasta House''" "Some ''amazing carbonara''"] c
  show ?thesis using a b d e by blast
qed

text \<open>
  C8 as stated fails. With the name \<open>Pasta House\<close> and the context \<open>pasta was great\<close>
  the term \<open>pasta\<close> stands twice in the code's list, so the one caption \<open>We had some
  pasta\<close> scores 2 and the timestamp 7 is returned, while the search-term set of the
  claim scores that caption 1, below the threshold. And a window that contains the full
  name \<open>pasta house\<close> scores 5 in the code, the name weighing 3, against 4 under the
  claim's weight of 2.
\<close>

theorem repeated_term_counted_twice:
  "findRestaurantTimestamp
      (Entries [\<lparr> ce_text = Some ''We had some pasta'', ce_offset = Some 7200 \<rparr>])
      ''Pasta House'' (Some ''pasta was great'') = Inr (Some (Num 7)) \<and>
   spec_score (spec_search_terms ''Pasta House'' (Some ''pasta was great'')) ''we had some pasta'' = 1 \<and>
   window_score (searchTerms_of ''Pasta House'' None) ''pasta house'' ''pasta house in rome'' = 5 \<and>
   spec_score (spec_search_terms ''Pasta House'' None) ''pasta house in rome'' = 4"
  by code_simp

text \<open>An entry without a text makes every match throw.\<close>

lemma find_malformed:
  assumes "\<exists>e\<in>set entries. ce_text e = None"
  shows "findRestaurantTimestamp (Entries entries) name ctx = Inl type_error"
proof -
  from assms have "entries \<noteq> []" by auto
  with timestampedText_of_malformed [OF assms] show ?thesis
    by (simp add: findRestaurantTimestamp_def)
qed

lemma enhance_all_malformed:
  assumes "\<exists>e\<in>set entries. ce_text e = None"
  shows "enhance_all (Entries entries) recs = (if recs = [] then Inr [] else Inl type_error)"
  by (cases recs) (simp_all add: find_malformed [OF assms])

lemma enhance_try_Inl:
  "enhance_try env videoId recs = Inl message \<Longrightarrow>
   enhanceRecommendationsWithTimestamps env videoId recs = recs"
  by (simp add: enhanceRecommendationsWithTimestamps_def)

text \<open>
  What the \<open>map\<close> over the recommendations does on an answer that is not an array, and
  on an array for which the lowering throws.
\<close>

lemma enhance_all_Falsy:
  "enhance_all Falsy recs = Inr (map (\<lambda>rec. rec\<lparr> rec_mentionedAt := None \<rparr>) recs)"
  by (induction recs) (simp_all add: findRestaurantTimestamp_def)

lemma enhance_all_Other_value:
  "enhance_all Other_value recs = (if recs = [] then Inr [] else Inl not_a_function)"
  by (cases recs) (simp_all add: findRestaurantTimestamp_def)

lemma enhance_all_throws:
  assumes "timestampedText_of entries = Inl message" and "entries \<noteq> []"
  shows "enhance_all (Entries entries) recs = (if recs = [] then Inr [] else Inl message)"
  using assms by (cases recs) (simp_all add: findRestaurantTimestamp_def)

lemma timestampedText_of_Inl:
  "timestampedText_of entries = Inl message \<Longrightarrow> list_ex (\<lambda>entry. ce_text entry = None) entries"
  by (induction entries) (auto split: option.splits sum.splits)

text \<open>On a transcript whose entries all carry a text no match throws.\<close>

lemma enhance_all_well_formed:
  assumes "timestampedText_of entries = Inr tt" and "entries \<noteq> []"
  shows "enhance_all (Entries entries) recs =
           Inr (map (\<lambda>rec. rec\<lparr> rec_mentionedAt := stamp tt rec \<rparr>) recs)"
  using assms
  by (induction recs) (simp_all add: findRestaurantTimestamp_def stamp_def Let_def)

text \<open>
  C10. When the timestamped transcript is not empty and each of its entries carries a
  text, the reconciler returns every candidate with \<open>mentionedAt\<close> replaced by its own
  match result and every other field as it was; a candidate whose best score is below 2
  comes back with \<open>mentionedAt = null\<close>, whatever the extractor had supplied.
\<close>

theorem enhance_rewrites_mentionedAt:
  assumes "fetchTranscript_timed env videoId = Inr (Entries entries)"
    and "entries \<noteq> []"
    and "\<forall>e\<in>set entries. ce_text e \<noteq> None"
  shows "\<exists>tt. timestampedText_of entries = Inr tt \<and>
           enhanceRecommendationsWithTimestamps env videoId recs =
             map (\<lambda>rec. rec\<lparr> rec_mentionedAt := stamp tt rec \<rparr>) recs \<and>
           (\<forall>i<length recs.
               snd (best_match tt (rec_name (recs ! i)) (rec_context (recs ! i))) < 2 \<longrightarrow>
               rec_mentionedAt (enhanceRecommendationsWithTimestamps env videoId recs ! i) = None)"
proof -
  from timestampedText_of_well_formed [OF assms(3)]
  obtain tt where tt: "timestampedText_of entries = Inr tt" by blast
  have eq: "enhanceRecommendationsWithTimestamps env videoId recs =
             map (\<lambda>rec. rec\<lparr> rec_mentionedAt := stamp tt rec \<rparr>) recs"
    using assms(1,2)
    by (simp add: enhanceRecommendationsWithTimestamps_def enhance_try_def
        getTranscriptWithTimestamps_def enhance_all_well_formed [OF tt assms(2)])
  have "\<forall>i<length recs.
               snd (best_match tt (rec_name (recs ! i)) (rec_context (recs ! i))) < 2 \<longrightarrow>
               rec_mentionedAt (enhanceRecommendationsWithTimestamps env videoId recs ! i) = None"
    by (simp add: eq stamp_def)
  with tt eq show ?thesis by blast
qed

theorem enhance_rewrites_mentionedAt_witness:
  "fetchTranscript_timed sample_services ''todo2'' = Inr (Entries sample_captions) \<and>
   sample_captions \<noteq> [] \<and> list_all (\<lambda>e. ce_text e \<noteq> None) sample_captions \<and>
   enhanceRecommendationsWithTimestamps sample_services ''todo2'' sample_candidates =
     [(sample_candidate ''Pasta House'' (Some ''amazing carbonara''))\<lparr> rec_mentionedAt := Some (Num 0) \<rparr>,
      (sample_candidate ''Sushi Den'' None)\<lparr> rec_mentionedAt := None \<rparr>]"
proof -
  have a: "fetchTranscript_timed sample_services ''todo2'' = Inr (Entries sample_captions)"
    by (simp add: sample_services_def)
  have b: "sample_captions \<noteq> []"
    by (simp add: sample_captions_def)
  have c: "\<forall>e\<in>set sample_captions. ce_text e \<noteq> None"
    by (simp add: sample_captions_def)
  have d: "timestampedText_of sample_captions = Inr sample_timed"
    by code_simp
  have e: "map (\<lambda>rec. rec\<lparr> rec_mentionedAt := stamp sample_timed rec \<rparr>) sample_candidates =
     [(sample_candidate ''Pasta House'' (Some ''amazing carbonara''))\<lparr> rec_mentionedAt := Some (Num 0) \<rparr>,
      (sample_candidate ''Sushi Den'' None)\<lparr> rec_mentionedAt := None \<rparr>]"
    by code_simp
  from enhance_rewrites_mentionedAt [OF a b c, of sample_candidates] d e
  have "enhanceRecommendationsWithTimestamps sample_services ''todo2'' sample_candidates =
     [(sample_candidate ''Pasta House'' (Some ''amazing carbonara''))\<lparr> rec_mentionedAt := Some (Num 0) \<rparr>,
      (sample_candidate ''Sushi Den'' None)\<lparr> rec_mentionedAt := None \<rparr>]"
    by auto
  with a b c show ?thesis by (simp add: list_all_iff)
qed

text \<open>
  C9, as the code has it. \<open>enhanceRecommendationsWithTimestamps\<close> has no failing
  outcome: its result is a list of candidates, for every answer of the captioning
  library. It is the list it was given when the library throws, when the answer is
  \<open>null\<close> or \<open>undefined\<close>, when the answer is the empty array or another value of
  length 0, when the answer is another value that is not an array and not falsy, when an
  entry of the array has no text, and whenever the \<open>try\<close> block throws. On the
  falsy answers \<open>0\<close>, \<open>false\<close> and \<open>NaN\<close> nothing throws and every candidate comes
  back with \<open>mentionedAt = null\<close>. On every other array the candidates come back with
  \<open>mentionedAt\<close> rewritten to the match result, which is \<open>NaN\<close> when the matched
  entry has no numeric offset.
\<close>

theorem enhance_result_for_every_answer:
  "enhanceRecommendationsWithTimestamps env videoId recs =
     (case fetchTranscript_timed env videoId of
        Inl message \<Rightarrow> recs
      | Inr Nullish \<Rightarrow> recs
      | Inr Empty_like \<Rightarrow> recs
      | Inr Other_value \<Rightarrow> recs
      | Inr Falsy \<Rightarrow> map (\<lambda>rec. rec\<lparr> rec_mentionedAt := None \<rparr>) recs
      | Inr (Entries entries) \<Rightarrow>
          if entries = [] \<or> list_ex (\<lambda>entry. ce_text entry = None) entries then recs
          else (case timestampedText_of entries of
                  Inl message \<Rightarrow> recs
                | Inr tt \<Rightarrow> map (\<lambda>rec. rec\<lparr> rec_mentionedAt := stamp tt rec \<rparr>) recs)) \<and>
   (enhance_try env videoId recs = Inl thrown \<longrightarrow>
      enhanceRecommendationsWithTimestamps env videoId recs = recs)"
proof
  show "enhance_try env videoId recs = Inl thrown \<longrightarrow>
      enhanceRecommendationsWithTimestamps env videoId recs = recs"
    by (simp add: enhanceRecommendationsWithTimestamps_def)
next
  show "enhanceRecommendationsWithTimestamps env videoId recs =
     (case fetchTranscript_timed env videoId of
        Inl message \<Rightarrow> recs
      | Inr Nullish \<Rightarrow> recs
      | Inr Empty_like \<Rightarrow> recs
      | Inr Other_value \<Rightarrow> recs
      | Inr Falsy \<Rightarrow> map (\<lambda>rec. rec\<lparr> rec_mentionedAt := None \<rparr>) recs
      | Inr (Entries entries) \<Rightarrow>
          if entries = [] \<or> list_ex (\<lambda>entry. ce_text entry = None) entries then recs
          else (case timestampedText_of entries of
                  Inl message \<Rightarrow> recs
                | Inr tt \<Rightarrow> map (\<lambda>rec. rec\<lparr> rec_mentionedAt := stamp tt rec \<rparr>) recs))"
  proof (cases "fetchTranscript_timed env videoId")
    case (Inl message)
    then show ?thesis
      by (simp add: enhanceRecommendationsWithTimestamps_def enhance_try_def
          getTranscriptWithTimestamps_def)
  next
    case (Inr answer)
    show ?thesis
    proof (cases answer)
      case (Entries entries)
      show ?thesis
      proof (cases "entries = []")
        case True
        with Inr Entries show ?thesis
          by (simp add: enhanceRecommendationsWithTimestamps_def enhance_try_def
              getTranscriptWithTimestamps_def)
      next
        case False
        show ?thesis
        proof (cases "timestampedText_of entries")
          case (Inl message)
          from timestampedText_of_Inl [OF Inl]
          have "list_ex (\<lambda>entry. ce_text entry = None) entries" .
          with Inr Entries False Inl show ?thesis
            by (simp add: enhanceRecommendationsWithTimestamps_def enhance_try_def
                getTranscriptWithTimestamps_def enhance_all_throws [OF Inl False])
        next
          case (Inr tt)
          have "\<not> list_ex (\<lambda>entry. ce_text entry = None) entries"
          proof
            assume "list_ex (\<lambda>entry. ce_text entry = None) entries"
            then have "\<exists>e\<in>set entries. ce_text e = None"
              by (simp add: list_ex_iff)
            from timestampedText_of_malformed [OF this] Inr show False
              by simp
          qed
          with \<open>fetchTranscript_timed env videoId = Inr answer\<close> Entries False Inr
          show ?thesis
            by (simp add: enhanceRecommendationsWithTimestamps_def enhance_try_def
                getTranscriptWithTimestamps_def enhance_all_well_formed [OF Inr False])
        qed
      qed
    next
      case Nullish
      with Inr show ?thesis
        by (simp add: enhanceRecommendationsWithTimestamps_def enhance_try_def
            getTranscriptWithTimestamps_def)
    next
      case Falsy
      with Inr show ?thesis
        by (simp add: enhanceRecommendationsWithTimestamps_def enhance_try_def
            getTranscriptWithTimestamps_def enhance_all_Falsy)
    next
      case Empty_like
      with Inr show ?thesis
        by (simp add: enhanceRecommendationsWithTimestamps_def enhance_try_def
            getTranscriptWithTimestamps_def)
    next
      case Other_value
      with Inr show ?thesis
        by (simp add: enhanceRecommendationsWithTimestamps_def enhance_try_def
            getTranscriptWithTimestamps_def enhance_all_Other_value)
    qed
  qed
qed

theorem enhance_result_for_every_answer_witness:
  "enhance_try broken_services ''todo2'' sample_candidates = Inl type_error \<and>
   fetchTranscript_timed broken_services ''todo2'' = Inr (Entries broken_captions) \<and>
   list_ex (\<lambda>entry. ce_text entry = None) broken_captions \<and>
   enhanceRecommendationsWithTimestamps broken_services ''todo2'' sample_candidates =
     sample_candidates \<and>
   fetchTranscript_timed silent_services ''todo2'' = Inl ''Transcript is disabled on this video'' \<and>
   enhanceRecommendationsWithTimestamps silent_services ''todo2'' sample_candidates =
     sample_candidates \<and>
   enhanceRecommendationsWithTimestamps
     (sample_services\<lparr> fetchTranscript_timed := (\<lambda>videoId. Inr Nullish) \<rparr>) ''todo2''
     sample_candidates = sample_candidates \<and>
   enhanceRecommendationsWithTimestamps
     (sample_services\<lparr> fetchTranscript_timed := (\<lambda>videoId. Inr (Entries [])) \<rparr>) ''todo2''
     sample_candidates = sample_candidates"
proof -
  have a: "enhance_try broken_services ''todo2'' sample_candidates = Inl type_error"
    by code_simp
  have b: "fetchTranscript_timed broken_services ''todo2'' = Inr (Entries broken_captions)"
    by (simp add: broken_services_def)
  have c: "list_ex (\<lambda>entry. ce_text entry = None) broken_captions"
    by (simp add: broken_captions_def)
  have d: "fetchTranscript_timed silent_services ''todo2'' =
             Inl ''Transcript is disabled on this video''"
    by (simp add: silent_services_def)
  have e: "enhanceRecommendationsWithTimestamps broken_services ''todo2'' sample_candidates =
     sample_candidates"
    using a
      enhance_result_for_every_answer
        [of broken_services "''todo2''" sample_candidates type_error]
    by blast
  have f: "enhanceRecommendationsWithTimestamps silent_services ''todo2'' sample_candidates =
     sample_candidates"
    using d
      enhance_result_for_every_answer [of silent_services "''todo2''" sample_candidates]
    by simp
  have g: "enhanceRecommendationsWithTimestamps
     (sample_services\<lparr> fetchTranscript_timed := (\<lambda>videoId. Inr Nullish) \<rparr>) ''todo2''
     sample_candidates = sample_candidates"
    using enhance_result_for_every_answer
        [of "sample_services\<lparr> fetchTranscript_timed := (\<lambda>videoId. Inr Nullish) \<rparr>" "''todo2''"
            sample_candidates]
    by simp
  have h: "enhanceRecommendationsWithTimestamps
     (sample_services\<lparr> fetchTranscript_timed := (\<lambda>videoId. Inr (Entries [])) \<rparr>) ''todo2''
     sample_candidates = sample_candidates"
    using enhance_result_for_every_answer
        [of "sample_services\<lparr> fetchTranscript_timed := (\<lambda>videoId. Inr (Entries [])) \<rparr>"
            "''todo2''" sample_candidates]
    by simp
  from a b c d e f g h show ?thesis by simp
qed

text \<open>
  C9 as stated fails on two malformed transcripts on which nothing throws. When the
  library answers \<open>false\<close>, the candidate that came with \<open>mentionedAt = 450\<close> comes
  back with \<open>null\<close>. When the caption entries carry no offset, it comes back with
  \<open>NaN\<close>. In both runs the result is not the list that was given.
\<close>

theorem malformed_transcript_rewrites_mentionedAt:
  "fetchTranscript_timed falsy_services ''todo2'' = Inr Falsy \<and>
   rec_mentionedAt (sample_candidate ''Pasta House'' (Some ''amazing carbonara'')) =
     Some (Num 450) \<and>
   enhanceRecommendationsWithTimestamps falsy_services ''todo2'' sample_candidates =
     [(sample_candidate ''Pasta House'' (Some ''amazing carbonara''))\<lparr> rec_mentionedAt := None \<rparr>,
      (sample_candidate ''Sushi Den'' None)\<lparr> rec_mentionedAt := None \<rparr>] \<and>
   enhanceRecommendationsWithTimestamps falsy_services ''todo2'' sample_candidates \<noteq>
     sample_candidates \<and>
   fetchTranscript_timed offsetless_services ''todo2'' =
     Inr (Entries [\<lparr> ce_text = Some ''Today we visit'', ce_offset = None \<rparr>,
                   \<lparr> ce_text = Some ''Pasta House in Rome'', ce_offset = None \<rparr>,
                   \<lparr> ce_text = Some ''amazing carbonara'', ce_offset = None \<rparr>]) \<and>
   enhanceRecommendationsWithTimestamps offsetless_services ''todo2'' sample_candidates =
     [(sample_candidate ''Pasta House'' (Some ''amazing carbonara''))\<lparr> rec_mentionedAt := Some NaN \<rparr>,
      (sample_candidate ''Sushi Den'' None)\<lparr> rec_mentionedAt := None \<rparr>] \<and>
   enhanceRecommendationsWithTimestamps offsetless_services ''todo2'' sample_candidates \<noteq>
     sample_candidates"
  by code_simp

section \<open>Persistence step: properties\<close>

text \<open>
  A write on a video succeeds when the database does not answer it with an error and
  the video has its row; it changes that row only.
\<close>

lemma apply_update_video_id [simp]: "v_video_id (apply_update u v) = v_video_id v"
  by (simp add: apply_update_def)

lemma updateVideo_Inr:
  "updateVideo env s videoId u = Inr s' \<Longrightarrow>
   s' = s\<lparr> videos := map (\<lambda>v. if v_video_id v = videoId then apply_update u v else v) (videos s) \<rparr>"
  by (auto simp add: updateVideo_def split: option.splits)

lemma updateVideo_succeeds:
  "video_row s videoId = Some row \<Longrightarrow> request_error env (Update_video videoId u) = None \<Longrightarrow>
   \<exists>s'. updateVideo env s videoId u = Inr s'"
  by (simp add: updateVideo_def)

lemma updateVideo_refused:
  "request_error env (Update_video videoId u) = Some message \<Longrightarrow>
   updateVideo env s videoId u = Inl (''Failed to update video: '' @ message)"
  by (simp add: updateVideo_def)

lemma filter_map_update:
  "filter (\<lambda>v. v_video_id v = videoId)
     (map (\<lambda>v. if v_video_id v = videoId then apply_update u v else v) vs) =
   map (apply_update u) (filter (\<lambda>v. v_video_id v = videoId) vs)"
  by (induction vs) auto

lemma video_row_after_update:
  assumes "video_row s videoId = Some row" and "updateVideo env s videoId u = Inr s'"
  shows "video_row s' videoId = Some (apply_update u row)"
proof -
  from assms(1) have "filter (\<lambda>v. v_video_id v = videoId) (videos s) = [row]"
    by (auto simp add: video_row_def split: list.splits)
  then show ?thesis
    using updateVideo_Inr [OF assms(2)] by (simp add: video_row_def filter_map_update)
qed

text \<open>
  The work on one candidate leaves the video table alone. When it succeeds it has
  appended one row to the recommendation table, the one it returns, which links the
  video to the restaurant it returns; when it fails it has appended none.
\<close>

lemma createRestaurant_Inr:
  "createRestaurant env s d = Inr (r, s') \<Longrightarrow>
   s' = s\<lparr> restaurants := restaurants s @ [r], next_id := Suc (next_id s) \<rparr>"
  by (auto simp add: createRestaurant_def Let_def split: option.splits)

lemma createRecommendation_Inr:
  "createRecommendation env s d = Inr (row, s') \<Longrightarrow>
   s' = s\<lparr> restaurant_recommendations := restaurant_recommendations s @ [row],
          next_id := Suc (next_id s) \<rparr> \<and>
   rr_video_id row = rcd_video_id d \<and> rr_restaurant_id row = rcd_restaurant_id d \<and>
   rr_confidence_score row = rcd_confidence_score d \<and> rr_context row = rcd_context d \<and>
   rr_dish_mentioned row = rcd_dish_mentioned d \<and>
   rr_mentioned_at_timestamp row = rcd_mentioned_at_timestamp d"
  by (auto simp add: createRecommendation_def Let_def split: option.splits if_splits)

lemma createRestaurant_videos:
  "createRestaurant env s d = Inr (r, s') \<Longrightarrow> videos s' = videos s"
  by (auto dest: createRestaurant_Inr)

lemma createRecommendation_videos:
  "createRecommendation env s d = Inr (r, s') \<Longrightarrow> videos s' = videos s"
  by (auto dest: createRecommendation_Inr)

lemma persist_one_videos:
  "persist_one env video s r = (s', res) \<Longrightarrow> videos s' = videos s"
  by (auto simp add: persist_one_def Let_def split: list.splits sum.splits prod.splits)
     (metis createRestaurant_videos createRecommendation_videos)+

lemma persist_one_Inl:
  "persist_one env video s r = (s', Inl message) \<Longrightarrow>
   restaurant_recommendations s' = restaurant_recommendations s"
  by (auto simp add: persist_one_def Let_def split: list.splits sum.splits prod.splits
      dest: createRestaurant_Inr)

lemma persist_one_Inr:
  assumes "persist_one env video s r = (s', Inr p)"
  shows "restaurant_recommendations s' = restaurant_recommendations s @ [pr_recommendation p] \<and>
         rr_video_id (pr_recommendation p) = v_id video \<and>
         rr_restaurant_id (pr_recommendation p) = r_id (pr_restaurant p) \<and>
         rr_confidence_score (pr_recommendation p) = rec_confidenceScore r \<and>
         rr_context (pr_recommendation p) = rec_context r \<and>
         rr_dish_mentioned (pr_recommendation p) = rec_dishMentioned r \<and>
         rr_mentioned_at_timestamp (pr_recommendation p) = json_number (rec_mentionedAt r)"
proof -
  from assms obtain restaurant s1 row where
    resolved: "(case findRestaurantByName env s (rec_name r) (rec_location r) of
                  Inl message \<Rightarrow> Inl message
                | Inr [] \<Rightarrow>
                    createRestaurant env s
                      \<lparr> rd_name = rec_name r, rd_address = rec_address r,
                        rd_city = rec_location r, rd_cuisine_type = rec_cuisineType r,
                        rd_price_range = rec_priceRange r \<rparr>
                | Inr (first # others) \<Rightarrow> Inr (first, s)) = Inr (restaurant, s1)"
    and created: "createRecommendation env s1
                    \<lparr> rcd_video_id = v_id video, rcd_restaurant_id = r_id restaurant,
                      rcd_confidence_score = rec_confidenceScore r,
                      rcd_context = rec_context r,
                      rcd_dish_mentioned = rec_dishMentioned r,
                      rcd_mentioned_at_timestamp = json_number (rec_mentionedAt r) \<rparr> =
                  Inr (row, s')"
    and p: "p = \<lparr> pr_restaurant = restaurant, pr_recommendation = row \<rparr>"
    by (auto simp add: persist_one_def Let_def split: sum.splits prod.splits)
  from resolved have "restaurant_recommendations s1 = restaurant_recommendations s"
    by (auto split: sum.splits list.splits dest: createRestaurant_Inr)
  with createRecommendation_Inr [OF created] p show ?thesis
    by simp
qed

lemma persist_loop_videos:
  "persist_loop env video recs s acc = (s', acc') \<Longrightarrow> videos s' = videos s"
proof (induction recs arbitrary: s acc)
  case Nil
  then show ?case by simp
next
  case (Cons r recs)
  obtain s1 res where one: "persist_one env video s r = (s1, res)"
    by (cases "persist_one env video s r") auto
  from persist_one_videos [OF one] have "videos s1 = videos s" .
  moreover from Cons.prems one have "videos s' = videos s1"
    by (cases res) (auto dest: Cons.IH)
  ultimately show ?case by simp
qed

text \<open>
  The loop appends to the list of persisted candidates, at most one for each candidate,
  and the recommendation table grows by the rows of the candidates it appended.
\<close>

lemma persist_loop_acc:
  "persist_loop env video recs s acc = (s', acc') \<Longrightarrow>
   \<exists>new. acc' = acc @ new \<and> length new \<le> length recs \<and>
         restaurant_recommendations s' =
           restaurant_recommendations s @ map pr_recommendation new"
proof (induction recs arbitrary: s acc)
  case Nil
  then show ?case by simp
next
  case (Cons r recs)
  obtain s1 res where one: "persist_one env video s r = (s1, res)"
    by (cases "persist_one env video s r") auto
  show ?case
  proof (cases res)
    case (Inl message)
    with Cons.prems one have "persist_loop env video recs s1 acc = (s', acc')" by simp
    from Cons.IH [OF this] persist_one_Inl [OF one [unfolded Inl]] show ?thesis by auto
  next
    case (Inr p)
    with Cons.prems one have "persist_loop env video recs s1 (acc @ [p]) = (s', acc')" by simp
    from Cons.IH [OF this] obtain new where new: "acc' = (acc @ [p]) @ new"
      "length new \<le> length recs"
      "restaurant_recommendations s' = restaurant_recommendations s1 @ map pr_recommendation new"
      by blast
    from persist_one_Inr [OF one [unfolded Inr]]
    have "restaurant_recommendations s1 = restaurant_recommendations s @ [pr_recommendation p]"
      by simp
    with new have "acc' = acc @ (p # new) \<and> length (p # new) \<le> length (r # recs) \<and>
        restaurant_recommendations s' =
          restaurant_recommendations s @ map pr_recommendation (p # new)"
      by simp
    then show ?thesis by blast
  qed
qed

text \<open>The list the loop starts with stands in front of what the loop appends.\<close>

lemma persist_loop_from:
  "persist_loop env video recs s acc =
     (case persist_loop env video recs s [] of (s', new) \<Rightarrow> (s', acc @ new))"
proof (induction recs arbitrary: s acc)
  case Nil
  then show ?case by simp
next
  case (Cons r recs)
  obtain s1 res where one: "persist_one env video s r = (s1, res)"
    by (cases "persist_one env video s r") auto
  show ?case
  proof (cases res)
    case (Inl message)
    with one Cons.IH [of s1 acc] show ?thesis by simp
  next
    case (Inr p)
    with one Cons.IH [of s1 "acc @ [p]"] Cons.IH [of s1 "[p]"] show ?thesis
      by (simp split: prod.splits)
  qed
qed

text \<open>
  The persistence step on an empty list is the final write alone; on a list that
  starts with \<open>r\<close> it is the work on \<open>r\<close>, then the step on the rest from the store
  that \<open>r\<close> left, whatever the outcome of \<open>r\<close>.
\<close>

lemma persist_and_mark_Nil:
  "persist_and_mark env s video [] =
     (case updateVideo env s (v_video_id video) mark_processed of
        Inl message \<Rightarrow> (s, Inl message)
      | Inr s' \<Rightarrow>
          (s', Inr \<lparr> recommendations = [], extracted_count = 0, processed_count = 0 \<rparr>))"
  by (simp add: persist_and_mark_def split: sum.splits)

lemma persist_and_mark_Cons:
  "persist_and_mark env s video (r # rest) =
     (case persist_one env video s r of
        (s1, outcome) \<Rightarrow>
          (case persist_and_mark env s1 video rest of
             (s', Inl message) \<Rightarrow> (s', Inl message)
           | (s', Inr result) \<Rightarrow>
               (s', Inr \<lparr> recommendations =
                           (case outcome of Inl thrown \<Rightarrow> [] | Inr p \<Rightarrow> [p]) @
                           recommendations result,
                         extracted_count = Suc (extracted_count result),
                         processed_count =
                           (case outcome of Inl thrown \<Rightarrow> 0 | Inr p \<Rightarrow> 1) +
                           processed_count result \<rparr>)))"
proof -
  obtain s1 outcome where one: "persist_one env video s r = (s1, outcome)"
    by (cases "persist_one env video s r") auto
  obtain s2 new where loop: "persist_loop env video rest s1 [] = (s2, new)"
    by (cases "persist_loop env video rest s1 []") auto
  show ?thesis
  proof (cases outcome)
    case (Inl thrown)
    with one loop show ?thesis
      by (simp add: persist_and_mark_def split: sum.splits)
  next
    case (Inr p)
    from persist_loop_from [of env video rest s1 "[p]"] loop
    have "persist_loop env video rest s1 [p] = (s2, p # new)"
      by simp
    with Inr one loop show ?thesis
      by (simp add: persist_and_mark_def split: sum.splits)
  qed
qed

text \<open>
  C3, as the code has it. The persistence step on a list of candidates is the work on
  its first candidate followed by the step on the remaining ones, from the store the
  first one left: when the work on the first candidate throws, the step goes on and its
  report is the report of the remaining candidates with one more candidate counted as
  extracted; when it succeeds, the persisted candidate stands in front of the report.
  On the empty list the step is the final write. A candidate that is persisted has its
  row appended to the recommendation table, with the fields of the candidate; a
  candidate that fails has none. When the video has its row and the database does not
  refuse the final write, the step returns normally for every list of candidates: the
  row of the video then has \<open>processed = true\<close> and no processing error, the report
  counts all the candidates as extracted and the persisted ones as processed, and the
  recommendation table has grown by the rows of the report, in their order. When the
  database refuses the final write, the step throws and the rows of the video table are
  as they were.
\<close>

theorem persistence_skips_failures_then_marks_processed:
  "persist_and_mark env s video [] =
     (case updateVideo env s (v_video_id video) mark_processed of
        Inl message \<Rightarrow> (s, Inl message)
      | Inr s' \<Rightarrow>
          (s', Inr \<lparr> recommendations = [], extracted_count = 0, processed_count = 0 \<rparr>)) \<and>
   persist_and_mark env s video (r # rest) =
     (case persist_one env video s r of
        (s1, outcome) \<Rightarrow>
          (case persist_and_mark env s1 video rest of
             (s', Inl message) \<Rightarrow> (s', Inl message)
           | (s', Inr result) \<Rightarrow>
               (s', Inr \<lparr> recommendations =
                           (case outcome of Inl thrown \<Rightarrow> [] | Inr p \<Rightarrow> [p]) @
                           recommendations result,
                         extracted_count = Suc (extracted_count result),
                         processed_count =
                           (case outcome of Inl thrown \<Rightarrow> 0 | Inr p \<Rightarrow> 1) +
                           processed_count result \<rparr>))) \<and>
   (persist_one env video s r = (s1, Inr p) \<longrightarrow>
      restaurant_recommendations s1 = restaurant_recommendations s @ [pr_recommendation p] \<and>
      videos s1 = videos s \<and>
      rr_video_id (pr_recommendation p) = v_id video \<and>
      rr_restaurant_id (pr_recommendation p) = r_id (pr_restaurant p) \<and>
      rr_confidence_score (pr_recommendation p) = rec_confidenceScore r \<and>
      rr_context (pr_recommendation p) = rec_context r \<and>
      rr_dish_mentioned (pr_recommendation p) = rec_dishMentioned r \<and>
      rr_mentioned_at_timestamp (pr_recommendation p) = json_number (rec_mentionedAt r)) \<and>
   (persist_one env video s r = (s1, Inl thrown) \<longrightarrow>
      restaurant_recommendations s1 = restaurant_recommendations s \<and> videos s1 = videos s) \<and>
   (video_row s (v_video_id video) = Some row \<and>
    request_error env (Update_video (v_video_id video) mark_processed) = None \<longrightarrow>
      (\<exists>s' result.
          persist_and_mark env s video recs = (s', Inr result) \<and>
          video_row s' (v_video_id video) = Some (apply_update mark_processed row) \<and>
          v_processed (apply_update mark_processed row) \<and>
          v_processing_error (apply_update mark_processed row) = None \<and>
          extracted_count result = length recs \<and>
          processed_count result = length (recommendations result) \<and>
          processed_count result \<le> length recs \<and>
          restaurant_recommendations s' =
            restaurant_recommendations s @ map pr_recommendation (recommendations result))) \<and>
   (request_error env (Update_video (v_video_id video) mark_processed) = Some refusal \<longrightarrow>
      (\<exists>s'. persist_and_mark env s video recs =
               (s', Inl (''Failed to update video: '' @ refusal)) \<and>
            videos s' = videos s))"
proof -
  have c1: "persist_and_mark env s video [] =
     (case updateVideo env s (v_video_id video) mark_processed of
        Inl message \<Rightarrow> (s, Inl message)
      | Inr s' \<Rightarrow>
          (s', Inr \<lparr> recommendations = [], extracted_count = 0, processed_count = 0 \<rparr>))"
    by (rule persist_and_mark_Nil)
  have c2: "persist_and_mark env s video (r # rest) =
     (case persist_one env video s r of
        (s1, outcome) \<Rightarrow>
          (case persist_and_mark env s1 video rest of
             (s', Inl message) \<Rightarrow> (s', Inl message)
           | (s', Inr result) \<Rightarrow>
               (s', Inr \<lparr> recommendations =
                           (case outcome of Inl thrown \<Rightarrow> [] | Inr p \<Rightarrow> [p]) @
                           recommendations result,
                         extracted_count = Suc (extracted_count result),
                         processed_count =
                           (case outcome of Inl thrown \<Rightarrow> 0 | Inr p \<Rightarrow> 1) +
                           processed_count result \<rparr>)))"
    by (rule persist_and_mark_Cons)
  have c3: "persist_one env video s r = (s1, Inr p) \<longrightarrow>
      restaurant_recommendations s1 = restaurant_recommendations s @ [pr_recommendation p] \<and>
      videos s1 = videos s \<and>
      rr_video_id (pr_recommendation p) = v_id video \<and>
      rr_restaurant_id (pr_recommendation p) = r_id (pr_restaurant p) \<and>
      rr_confidence_score (pr_recommendation p) = rec_confidenceScore r \<and>
      rr_context (pr_recommendation p) = rec_context r \<and>
      rr_dish_mentioned (pr_recommendation p) = rec_dishMentioned r \<and>
      rr_mentioned_at_timestamp (pr_recommendation p) = json_number (rec_mentionedAt r)"
  proof
    assume one: "persist_one env video s r = (s1, Inr p)"
    from persist_one_Inr [OF one] persist_one_videos [OF one]
    show "restaurant_recommendations s1 = restaurant_recommendations s @ [pr_recommendation p] \<and>
        videos s1 = videos s \<and>
        rr_video_id (pr_recommendation p) = v_id video \<and>
        rr_restaurant_id (pr_recommendation p) = r_id (pr_restaurant p) \<and>
        rr_confidence_score (pr_recommendation p) = rec_confidenceScore r \<and>
        rr_context (pr_recommendation p) = rec_context r \<and>
        rr_dish_mentioned (pr_recommendation p) = rec_dishMentioned r \<and>
        rr_mentioned_at_timestamp (pr_recommendation p) = json_number (rec_mentionedAt r)"
      by simp
  qed
  have c4: "persist_one env video s r = (s1, Inl thrown) \<longrightarrow>
      restaurant_recommendations s1 = restaurant_recommendations s \<and> videos s1 = videos s"
  proof
    assume one: "persist_one env video s r = (s1, Inl thrown)"
    from persist_one_Inl [OF one] persist_one_videos [OF one]
    show "restaurant_recommendations s1 = restaurant_recommendations s \<and> videos s1 = videos s"
      by simp
  qed
  have c5: "video_row s (v_video_id video) = Some row \<and>
    request_error env (Update_video (v_video_id video) mark_processed) = None \<longrightarrow>
      (\<exists>s' result.
          persist_and_mark env s video recs = (s', Inr result) \<and>
          video_row s' (v_video_id video) = Some (apply_update mark_processed row) \<and>
          v_processed (apply_update mark_processed row) \<and>
          v_processing_error (apply_update mark_processed row) = None \<and>
          extracted_count result = length recs \<and>
          processed_count result = length (recommendations result) \<and>
          processed_count result \<le> length recs \<and>
          restaurant_recommendations s' =
            restaurant_recommendations s @ map pr_recommendation (recommendations result))"
  proof
    assume a: "video_row s (v_video_id video) = Some row \<and>
      request_error env (Update_video (v_video_id video) mark_processed) = None"
    obtain s1 persisted where loop: "persist_loop env video recs s [] = (s1, persisted)"
      by (cases "persist_loop env video recs s []") auto
    from persist_loop_videos [OF loop] a
    have row1: "video_row s1 (v_video_id video) = Some row"
      by (simp add: video_row_def)
    from updateVideo_succeeds [OF row1] a
    obtain s2 where upd: "updateVideo env s1 (v_video_id video) mark_processed = Inr s2"
      by blast
    from persist_loop_acc [OF loop] have len: "length persisted \<le> length recs"
      and rows: "restaurant_recommendations s1 =
                   restaurant_recommendations s @ map pr_recommendation persisted"
      by auto
    have res: "persist_and_mark env s video recs =
                 (s2, Inr \<lparr> recommendations = persisted, extracted_count = length recs,
                           processed_count = length persisted \<rparr>)"
      using loop upd by (simp add: persist_and_mark_def)
    have "video_row s2 (v_video_id video) = Some (apply_update mark_processed row)"
      by (rule video_row_after_update [OF row1 upd])
    moreover have "v_processed (apply_update mark_processed row)"
      and "v_processing_error (apply_update mark_processed row) = None"
      by (simp_all add: apply_update_def mark_processed_def no_update_def)
    moreover have "restaurant_recommendations s2 =
                     restaurant_recommendations s @ map pr_recommendation persisted"
      using updateVideo_Inr [OF upd] rows by simp
    ultimately show "\<exists>s' result.
            persist_and_mark env s video recs = (s', Inr result) \<and>
            video_row s' (v_video_id video) = Some (apply_update mark_processed row) \<and>
            v_processed (apply_update mark_processed row) \<and>
            v_processing_error (apply_update mark_processed row) = None \<and>
            extracted_count result = length recs \<and>
            processed_count result = length (recommendations result) \<and>
            processed_count result \<le> length recs \<and>
            restaurant_recommendations s' =
              restaurant_recommendations s @ map pr_recommendation (recommendations result)"
      using res len by simp
  qed
  have c6: "request_error env (Update_video (v_video_id video) mark_processed) = Some refusal \<longrightarrow>
      (\<exists>s'. persist_and_mark env s video recs =
               (s', Inl (''Failed to update video: '' @ refusal)) \<and>
            videos s' = videos s)"
  proof
    assume a: "request_error env (Update_video (v_video_id video) mark_processed) = Some refusal"
    obtain s1 persisted where loop: "persist_loop env video recs s [] = (s1, persisted)"
      by (cases "persist_loop env video recs s []") auto
    from updateVideo_refused [OF a]
    have "persist_and_mark env s video recs = (s1, Inl (''Failed to update video: '' @ refusal))"
      using loop by (simp add: persist_and_mark_def)
    with persist_loop_videos [OF loop]
    show "\<exists>s'. persist_and_mark env s video recs =
                 (s', Inl (''Failed to update video: '' @ refusal)) \<and>
              videos s' = videos s"
      by simp
  qed
  show ?thesis
    by (rule conjI [OF c1 conjI [OF c2 conjI [OF c3 conjI [OF c4 conjI [OF c5 c6]]]]])
qed

theorem persistence_skips_failures_then_marks_processed_witness:
  "video_row sample_store ''todo2'' = Some (sample_video ''todo2'' False) \<and>
   request_error sample_services (Update_video ''todo2'' mark_processed) = None \<and>
   request_error refusing_services (Update_video ''todo2'' mark_processed) = None \<and>
   (case persist_and_mark sample_services sample_store (sample_video ''todo2'' False)
           sample_extracted of
      (s', Inr result) \<Rightarrow>
        extracted_count result = 3 \<and> processed_count result = 2 \<and>
        map v_processed (videos s') = [True, True] \<and>
        map rr_restaurant_id (restaurant_recommendations s') = [3, 5]
    | (s', Inl message) \<Rightarrow> False) \<and>
   (case persist_and_mark refusing_services sample_store (sample_video ''todo2'' False)
           sample_extracted of
      (s', Inr result) \<Rightarrow>
        extracted_count result = 3 \<and> processed_count result = 0 \<and>
        map v_processed (videos s') = [True, True] \<and> restaurant_recommendations s' = []
    | (s', Inl message) \<Rightarrow> False) \<and>
   (\<exists>s' result.
       persist_and_mark refusing_services sample_store (sample_video ''todo2'' False)
         sample_extracted = (s', Inr result) \<and>
       video_row s' ''todo2'' = Some (apply_update mark_processed (sample_video ''todo2'' False)) \<and>
       v_processed (apply_update mark_processed (sample_video ''todo2'' False)) \<and>
       v_processing_error (apply_update mark_processed (sample_video ''todo2'' False)) = None) \<and>
   request_error unwritable_services (Update_video ''todo2'' mark_processed) =
     Some ''fetch failed'' \<and>
   (\<exists>s'. persist_and_mark unwritable_services sample_store (sample_video ''todo2'' False)
            sample_extracted = (s', Inl ''Failed to update video: fetch failed'') \<and>
         videos s' = videos sample_store) \<and>
   (\<exists>s1 p. persist_one sample_services (sample_video ''todo2'' False) sample_store
              (sample_extracted ! 0) = (s1, Inr p) \<and>
           restaurant_recommendations s1 =
             restaurant_recommendations sample_store @ [pr_recommendation p] \<and>
           rr_video_id (pr_recommendation p) = v_id (sample_video ''todo2'' False) \<and>
           rr_restaurant_id (pr_recommendation p) = r_id (pr_restaurant p)) \<and>
   (\<exists>s1 thrown. persist_one refusing_services (sample_video ''todo2'' False) sample_store
              (sample_extracted ! 0) = (s1, Inl thrown) \<and>
           restaurant_recommendations s1 = restaurant_recommendations sample_store)"
proof -
  have vid: "v_video_id (sample_video ''todo2'' False) = ''todo2''"
    by (simp add: sample_video_def)
  have a: "video_row sample_store (v_video_id (sample_video ''todo2'' False)) =
             Some (sample_video ''todo2'' False)"
    by (simp add: video_row_def sample_store_def sample_video_def)
  have b1: "request_error sample_services
              (Update_video (v_video_id (sample_video ''todo2'' False)) mark_processed) = None"
    by (simp add: sample_services_def)
  have b2: "request_error refusing_services
              (Update_video (v_video_id (sample_video ''todo2'' False)) mark_processed) = None"
    by (simp add: refusing_services_def sample_services_def)
  have b3: "request_error unwritable_services
              (Update_video (v_video_id (sample_video ''todo2'' False)) mark_processed) =
            Some ''fetch failed''"
    by (simp add: unwritable_services_def sample_services_def)
  have c: "case persist_and_mark sample_services sample_store (sample_video ''todo2'' False)
           sample_extracted of
      (s', Inr result) \<Rightarrow>
        extracted_count result = 3 \<and> processed_count result = 2 \<and>
        map v_processed (videos s') = [True, True] \<and>
        map rr_restaurant_id (restaurant_recommendations s') = [3, 5]
    | (s', Inl message) \<Rightarrow> False"
    by code_simp
  have d: "case persist_and_mark refusing_services sample_store (sample_video ''todo2'' False)
           sample_extracted of
      (s', Inr result) \<Rightarrow>
        extracted_count result = 3 \<and> processed_count result = 0 \<and>
        map v_processed (videos s') = [True, True] \<and> restaurant_recommendations s' = []
    | (s', Inl message) \<Rightarrow> False"
    by code_simp
  note marked =
    persistence_skips_failures_then_marks_processed
      [where env = refusing_services and s = sample_store
         and video = "sample_video ''todo2'' False" and recs = sample_extracted
         and row = "sample_video ''todo2'' False",
       THEN conjunct2, THEN conjunct2, THEN conjunct2, THEN conjunct2, THEN conjunct1,
       THEN mp, OF conjI [OF a b2]]
  have e: "\<exists>s' result.
       persist_and_mark refusing_services sample_store (sample_video ''todo2'' False)
         sample_extracted = (s', Inr result) \<and>
       video_row s' ''todo2'' = Some (apply_update mark_processed (sample_video ''todo2'' False)) \<and>
       v_processed (apply_update mark_processed (sample_video ''todo2'' False)) \<and>
       v_processing_error (apply_update mark_processed (sample_video ''todo2'' False)) = None"
    using marked unfolding vid by blast
  note refused =
    persistence_skips_failures_then_marks_processed
      [where env = unwritable_services and s = sample_store
         and video = "sample_video ''todo2'' False" and recs = sample_extracted
         and refusal = "''fetch failed''",
       THEN conjunct2, THEN conjunct2, THEN conjunct2, THEN conjunct2, THEN conjunct2,
       THEN mp, OF b3]
  have f: "\<exists>s'. persist_and_mark unwritable_services sample_store (sample_video ''todo2'' False)
            sample_extracted = (s', Inl ''Failed to update video: fetch failed'') \<and>
         videos s' = videos sample_store"
    using refused by simp
  obtain s1 p where one: "persist_one sample_services (sample_video ''todo2'' False) sample_store
              (sample_extracted ! 0) = (s1, Inr p)"
  proof -
    have "case persist_one sample_services (sample_video ''todo2'' False) sample_store
              (sample_extracted ! 0) of
            (s1, Inr p) \<Rightarrow> True | (s1, Inl thrown) \<Rightarrow> False"
      by code_simp
    then show ?thesis
      using that by (auto split: prod.splits sum.splits)
  qed
  note persisted =
    persistence_skips_failures_then_marks_processed
      [where env = sample_services and s = sample_store
         and video = "sample_video ''todo2'' False" and r = "sample_extracted ! 0"
         and ?s1.0 = s1 and p = p,
       THEN conjunct2, THEN conjunct2, THEN conjunct1, THEN mp, OF one]
  have g: "\<exists>s1 p. persist_one sample_services (sample_video ''todo2'' False) sample_store
              (sample_extracted ! 0) = (s1, Inr p) \<and>
           restaurant_recommendations s1 =
             restaurant_recommendations sample_store @ [pr_recommendation p] \<and>
           rr_video_id (pr_recommendation p) = v_id (sample_video ''todo2'' False) \<and>
           rr_restaurant_id (pr_recommendation p) = r_id (pr_restaurant p)"
    using one persisted by blast
  obtain s2 thrown where two: "persist_one refusing_services (sample_video ''todo2'' False)
              sample_store (sample_extracted ! 0) = (s2, Inl thrown)"
  proof -
    have "case persist_one refusing_services (sample_video ''todo2'' False) sample_store
              (sample_extracted ! 0) of
            (s1, Inr p) \<Rightarrow> False | (s1, Inl thrown) \<Rightarrow> True"
      by code_simp
    then show ?thesis
      using that by (auto split: prod.splits sum.splits)
  qed
  note skipped =
    persistence_skips_failures_then_marks_processed
      [where env = refusing_services and s = sample_store
         and video = "sample_video ''todo2'' False" and r = "sample_extracted ! 0"
         and ?s1.0 = s2 and thrown = thrown,
       THEN conjunct2, THEN conjunct2, THEN conjunct2, THEN conjunct1, THEN mp, OF two]
  have h: "\<exists>s1 thrown. persist_one refusing_services (sample_video ''todo2'' False) sample_store
              (sample_extracted ! 0) = (s1, Inl thrown) \<and>
           restaurant_recommendations s1 = restaurant_recommendations sample_store"
    using two skipped by blast
  from a b1 b2 b3 c d e f g h show ?thesis
    unfolding vid by simp
qed

text \<open>
  C3 as stated fails when the database refuses the final write. The video \<open>todo2\<close>
  has its row; two of the three candidates are persisted; the write that marks the
  video processed throws, the step throws with it, and the record of the video still
  has \<open>processed = false\<close>.
\<close>

theorem refused_final_write_leaves_video_unprocessed:
  "video_row sample_store ''todo2'' = Some (sample_video ''todo2'' False) \<and>
   snd (persist_and_mark unwritable_services sample_store (sample_video ''todo2'' False)
          sample_extracted) = Inl ''Failed to update video: fetch failed'' \<and>
   map v_processed
     (videos (fst (persist_and_mark unwritable_services sample_store
                     (sample_video ''todo2'' False) sample_extracted))) = [True, False] \<and>
   map rr_restaurant_id
     (restaurant_recommendations
        (fst (persist_and_mark unwritable_services sample_store
                (sample_video ''todo2'' False) sample_extracted))) = [3, 5]"
  by code_simp

section \<open>The invariant of the video table: properties\<close>

text \<open>The relations between the rows before and after a step.\<close>

lemma same_video_refl: "same_video w v v"
  by (simp add: same_video_def)

lemma flags_kept_refl: "flags_kept w v v"
  by (simp add: flags_kept_def same_video_refl)

lemma flags_kept_ok_kept: "flags_kept w a b \<Longrightarrow> ok_kept w a b"
  by (auto simp add: flags_kept_def ok_kept_def video_ok_def)

lemma flags_kept_trans: "flags_kept w a b \<Longrightarrow> flags_kept w b c \<Longrightarrow> flags_kept w a c"
  by (auto simp add: flags_kept_def same_video_def split: if_splits)

lemma ok_kept_trans: "ok_kept w a b \<Longrightarrow> ok_kept w b c \<Longrightarrow> ok_kept w a c"
  by (auto simp add: ok_kept_def same_video_def split: if_splits)

lemma list_all2_flags_refl: "list_all2 (flags_kept w) vs vs"
  by (simp add: list_all2_same flags_kept_refl)

lemma list_all2_flags_ok: "list_all2 (flags_kept w) vs vs' \<Longrightarrow> list_all2 (ok_kept w) vs vs'"
  by (erule list_all2_mono) (rule flags_kept_ok_kept)

lemma list_all2_update:
  assumes "\<And>v. v \<in> set vs \<Longrightarrow> v_video_id v = w \<Longrightarrow> P v (apply_update u v)"
    and "\<And>v. v \<in> set vs \<Longrightarrow> v_video_id v \<noteq> w \<Longrightarrow> P v v"
  shows "list_all2 P vs (map (\<lambda>v. if v_video_id v = w then apply_update u v else v) vs)"
  using assms by (simp add: list_all2_map2 list_all2_same)

text \<open>
  What \<open>processVideoRecommendations\<close> does to the video table: only rows of its video
  change; when it throws, their two processing fields are as before.
\<close>

lemma update_transcript_flags:
  "updateVideo env s w (no_update\<lparr>u_transcript := Some t\<rparr>) = Inr s' \<Longrightarrow>
   list_all2 (flags_kept w) (videos s) (videos s')"
  by (drule updateVideo_Inr)
     (auto intro!: list_all2_update
       simp add: flags_kept_def same_video_def apply_update_def no_update_def)

lemma update_mark_processed_ok:
  "updateVideo env s w mark_processed = Inr s' \<Longrightarrow> list_all2 (ok_kept w) (videos s) (videos s')"
  by (drule updateVideo_Inr)
     (auto intro!: list_all2_update
       simp add: ok_kept_def same_video_def apply_update_def no_update_def mark_processed_def
         video_ok_def)

lemma fetch_and_store_flags:
  "fetch_and_store env s video = (s1, t) \<Longrightarrow>
   list_all2 (flags_kept (v_video_id video)) (videos s) (videos s1)"
  by (auto simp add: fetch_and_store_def list_all2_flags_refl
      split: sum.splits dest: update_transcript_flags)

lemma acquire_transcript_flags:
  "acquire_transcript env s video = (s1, r) \<Longrightarrow>
   list_all2 (flags_kept (v_video_id video)) (videos s) (videos s1)"
  by (auto simp add: acquire_transcript_def Let_def list_all2_flags_refl
      split: option.splits if_splits prod.splits dest: fetch_and_store_flags)

lemma persist_and_mark_Inl:
  "persist_and_mark env s video recs = (s', Inl m) \<Longrightarrow> videos s' = videos s"
  by (auto simp add: persist_and_mark_def split: prod.splits sum.splits dest: persist_loop_videos)

lemma persist_and_mark_ok:
  "persist_and_mark env s video recs = (s', r) \<Longrightarrow>
   list_all2 (ok_kept (v_video_id video)) (videos s) (videos s')"
proof -
  assume a: "persist_and_mark env s video recs = (s', r)"
  obtain s1 persisted where loop: "persist_loop env video recs s [] = (s1, persisted)"
    by (cases "persist_loop env video recs s []") auto
  have v1: "videos s1 = videos s"
    by (rule persist_loop_videos [OF loop])
  show ?thesis
  proof (cases "updateVideo env s1 (v_video_id video) mark_processed")
    case (Inl m)
    with a loop have "s' = s1" by (simp add: persist_and_mark_def)
    with v1 show ?thesis by (simp add: list_all2_flags_ok list_all2_flags_refl)
  next
    case (Inr s2)
    with a loop have "s' = s2" by (simp add: persist_and_mark_def)
    with update_mark_processed_ok [OF Inr] v1 show ?thesis by simp
  qed
qed

lemma process_Inl_flags:
  assumes "processVideoRecommendations env s video = (s', Inl m)"
  shows "list_all2 (flags_kept (v_video_id video)) (videos s) (videos s')"
proof -
  obtain s1 r where acq: "acquire_transcript env s video = (s1, r)"
    by (cases "acquire_transcript env s video") auto
  note f1 = acquire_transcript_flags [OF acq]
  show ?thesis
  proof (cases r)
    case (Inl e)
    with assms acq have "s' = s1" by (simp add: processVideoRecommendations_def)
    with f1 show ?thesis by simp
  next
    case (Inr transcript)
    show ?thesis
    proof (cases "extractRestaurantRecommendations env transcript (v_title video)")
      case (Inl e)
      with assms acq Inr have "s' = s1" by (simp add: processVideoRecommendations_def)
      with f1 show ?thesis by simp
    next
      case ex: (Inr extracted)
      with assms acq Inr have
        "persist_and_mark env s1 video
           (enhanceRecommendationsWithTimestamps env (v_video_id video) extracted) = (s', Inl m)"
        by (simp add: processVideoRecommendations_def)
      from persist_and_mark_Inl [OF this] f1 show ?thesis by simp
    qed
  qed
qed

lemma process_ok_kept:
  assumes "processVideoRecommendations env s video = (s', r)"
  shows "list_all2 (ok_kept (v_video_id video)) (videos s) (videos s')"
proof (cases r)
  case (Inl m)
  with assms show ?thesis by (auto dest: process_Inl_flags list_all2_flags_ok)
next
  case (Inr result)
  obtain s1 r1 where acq: "acquire_transcript env s video = (s1, r1)"
    by (cases "acquire_transcript env s video") auto
  note f1 = list_all2_flags_ok [OF acquire_transcript_flags [OF acq]]
  from assms acq Inr obtain transcript extracted where
    "persist_and_mark env s1 video
       (enhanceRecommendationsWithTimestamps env (v_video_id video) extracted) = (s', Inr result)"
    by (auto simp add: processVideoRecommendations_def split: sum.splits)
  note f2 = persist_and_mark_ok [OF this]
  show ?thesis
    by (rule list_all2_trans [OF _ f1 f2]) (rule ok_kept_trans)
qed

text \<open>What the relations carry over.\<close>

lemma ok_kept_ids:
  "list_all2 (ok_kept w) vs vs' \<Longrightarrow> map v_video_id vs' = map v_video_id vs"
  by (induction rule: list_all2_induct) (auto simp add: ok_kept_def same_video_def)

lemma ok_kept_store_ok:
  "list_all2 (ok_kept w) vs vs' \<Longrightarrow> list_all video_ok vs \<Longrightarrow> list_all video_ok vs'"
  by (induction rule: list_all2_induct) (auto simp add: ok_kept_def)

lemma ok_kept_pending:
  "list_all2 (ok_kept w) (videos s) (videos s') \<Longrightarrow> x \<noteq> w \<Longrightarrow> pending s x \<Longrightarrow> pending s' x"
  unfolding pending_def
  by (induction rule: list_all2_induct)
     (auto simp add: ok_kept_def same_video_def split: if_splits)

lemma flags_kept_pending:
  "list_all2 (flags_kept w) (videos s) (videos s') \<Longrightarrow> pending s x \<Longrightarrow> pending s' x"
  unfolding pending_def
  by (induction rule: list_all2_induct)
     (auto simp add: flags_kept_def same_video_def split: if_splits)

lemma process_store_ok:
  "processVideoRecommendations env s video = (s', r) \<Longrightarrow> store_ok s \<Longrightarrow> store_ok s'"
  unfolding store_ok_def by (blast dest: process_ok_kept ok_kept_store_ok)

lemma process_unique:
  "processVideoRecommendations env s video = (s', r) \<Longrightarrow> unique_video_ids s \<Longrightarrow>
   unique_video_ids s'"
  unfolding unique_video_ids_def by (auto dest!: process_ok_kept ok_kept_ids)

lemma update_ids:
  "updateVideo env s w u = Inr s' \<Longrightarrow> map v_video_id (videos s') = map v_video_id (videos s)"
  by (drule updateVideo_Inr) (simp add: comp_def)

lemma update_unique:
  "updateVideo env s w u = Inr s' \<Longrightarrow> unique_video_ids s \<Longrightarrow> unique_video_ids s'"
  unfolding unique_video_ids_def by (auto dest!: update_ids)

lemma update_store_ok:
  assumes "updateVideo env s w u = Inr s'" and "store_ok s"
    and "\<And>v. v \<in> set (videos s) \<Longrightarrow> v_video_id v = w \<Longrightarrow> video_ok (apply_update u v)"
  shows "store_ok s'"
  using assms(2,3) unfolding updateVideo_Inr [OF assms(1)] store_ok_def
  by (auto simp add: list_all_iff)

lemma mark_failed_store_ok:
  "updateVideo env s w (mark_failed m) = Inr s' \<Longrightarrow> store_ok s \<Longrightarrow> store_ok s'"
  by (erule update_store_ok)
     (simp_all add: video_ok_def apply_update_def mark_failed_def no_update_def)

lemma clear_error_store_ok:
  "updateVideo env s w (set_error None) = Inr s' \<Longrightarrow> store_ok s \<Longrightarrow> store_ok s'"
  by (erule update_store_ok)
     (simp_all add: video_ok_def apply_update_def set_error_def no_update_def)

lemma set_error_store_ok:
  "updateVideo env s w (set_error e) = Inr s' \<Longrightarrow> store_ok s \<Longrightarrow> pending s w \<Longrightarrow> store_ok s'"
  by (erule update_store_ok)
     (auto simp add: video_ok_def apply_update_def set_error_def no_update_def pending_def
        list_all_iff)

lemma set_error_pending:
  "updateVideo env s w (set_error e) = Inr s' \<Longrightarrow> pending s x \<Longrightarrow> pending s' x"
  by (drule updateVideo_Inr)
     (auto simp add: pending_def list_all_iff apply_update_def set_error_def no_update_def)

text \<open>The routes, one by one.\<close>

lemma process_video_catch_store_ok:
  assumes "store_ok s"
  shows "store_ok (snd (process_video_catch env s videoId m))"
proof (cases "updateVideo env s videoId (mark_failed m)")
  case (Inl e)
  with assms show ?thesis by (simp add: process_video_catch_def)
next
  case (Inr s1)
  from mark_failed_store_ok [OF Inr assms] Inr show ?thesis
    by (simp add: process_video_catch_def)
qed

lemma process_video_catch_unique:
  assumes "unique_video_ids s"
  shows "unique_video_ids (snd (process_video_catch env s videoId m))"
proof (cases "updateVideo env s videoId (mark_failed m)")
  case (Inl e)
  with assms show ?thesis by (simp add: process_video_catch_def)
next
  case (Inr s1)
  from update_unique [OF Inr assms] Inr show ?thesis
    by (simp add: process_video_catch_def)
qed

lemma process_video_store_ok:
  assumes "store_ok s"
  shows "store_ok (snd (process_video env s videoId))"
proof (cases "getVideo env s videoId")
  case (Inl m)
  with process_video_catch_store_ok [OF assms] show ?thesis
    by (simp add: process_video_def)
next
  case (Inr found)
  show ?thesis
  proof (cases found)
    case None
    with Inr assms show ?thesis by (simp add: process_video_def)
  next
    case (Some video)
    show ?thesis
    proof (cases "v_processed video")
      case True
      with Inr Some assms show ?thesis by (simp add: process_video_def)
    next
      case False
      obtain s1 r where p: "processVideoRecommendations env s video = (s1, r)"
        by (cases "processVideoRecommendations env s video") auto
      note ok1 = process_store_ok [OF p assms]
      show ?thesis
      proof (cases r)
        case result: (Inr result)
        with Inr Some False p ok1 show ?thesis by (simp add: process_video_def)
      next
        case m: (Inl m)
        with Inr Some False p process_video_catch_store_ok [OF ok1] show ?thesis
          by (simp add: process_video_def)
      qed
    qed
  qed
qed

lemma batch_loop_store_ok:
  "store_ok s \<Longrightarrow> store_ok (fst (batch_loop env vids s results))"
proof (induction vids arbitrary: s results)
  case Nil
  then show ?case by simp
next
  case (Cons video vids)
  obtain s1 r where p: "processVideoRecommendations env s video = (s1, r)"
    by (cases "processVideoRecommendations env s video") auto
  note ok1 = process_store_ok [OF p Cons.prems]
  show ?case
  proof (cases r)
    case (Inr result)
    with p Cons.IH [OF ok1] show ?thesis by simp
  next
    case (Inl m)
    show ?thesis
    proof (cases "updateVideo env s1 (v_video_id video) (mark_failed m)")
      case u: (Inl e)
      with p Inl ok1 show ?thesis by simp
    next
      case u: (Inr s2)
      from Cons.IH [OF mark_failed_store_ok [OF u ok1]] p Inl u show ?thesis by simp
    qed
  qed
qed

lemma process_batch_store_ok:
  assumes "store_ok s"
  shows "store_ok (snd (process_batch env s limit))"
proof (cases "getUnprocessedVideos env s (case limit of None \<Rightarrow> 5 | Some n \<Rightarrow> n)")
  case (Inl m)
  with assms show ?thesis by (simp add: process_batch_def)
next
  case (Inr vids)
  obtain s1 r where loop:
    "batch_loop env vids s
       \<lparr> br_processed = 0, br_failed = 0, br_errors = [], br_videos_processed = [] \<rparr> = (s1, r)"
    by (cases "batch_loop env vids s
       \<lparr> br_processed = 0, br_failed = 0, br_errors = [], br_videos_processed = [] \<rparr>") auto
  from batch_loop_store_ok [OF assms, of env vids
      "\<lparr> br_processed = 0, br_failed = 0, br_errors = [], br_videos_processed = [] \<rparr>"] loop
  have "store_ok s1" by simp
  with assms loop Inr show ?thesis
    by (cases r) (simp_all add: process_batch_def)
qed

lemma process_video_unique:
  assumes "unique_video_ids s"
  shows "unique_video_ids (snd (process_video env s videoId))"
proof (cases "getVideo env s videoId")
  case (Inl m)
  with process_video_catch_unique [OF assms] show ?thesis
    by (simp add: process_video_def)
next
  case (Inr found)
  show ?thesis
  proof (cases found)
    case None
    with Inr assms show ?thesis by (simp add: process_video_def)
  next
    case (Some video)
    obtain s1 r where p: "processVideoRecommendations env s video = (s1, r)"
      by (cases "processVideoRecommendations env s video") auto
    note u1 = process_unique [OF p assms]
    show ?thesis
    proof (cases r)
      case result: (Inr result)
      with Inr Some p u1 assms show ?thesis by (simp add: process_video_def)
    next
      case m: (Inl m)
      with Inr Some p assms process_video_catch_unique [OF u1] show ?thesis
        by (simp add: process_video_def)
    qed
  qed
qed

lemma batch_loop_unique:
  "unique_video_ids s \<Longrightarrow> unique_video_ids (fst (batch_loop env vids s results))"
proof (induction vids arbitrary: s results)
  case Nil
  then show ?case by simp
next
  case (Cons video vids)
  obtain s1 r where p: "processVideoRecommendations env s video = (s1, r)"
    by (cases "processVideoRecommendations env s video") auto
  note u1 = process_unique [OF p Cons.prems]
  show ?case
  proof (cases r)
    case (Inr result)
    with p Cons.IH [OF u1] show ?thesis by simp
  next
    case (Inl m)
    show ?thesis
    proof (cases "updateVideo env s1 (v_video_id video) (mark_failed m)")
      case u: (Inl e)
      with p Inl u1 show ?thesis by simp
    next
      case u: (Inr s2)
      from Cons.IH [OF update_unique [OF u u1]] p Inl u show ?thesis by simp
    qed
  qed
qed

lemma process_batch_unique:
  assumes "unique_video_ids s"
  shows "unique_video_ids (snd (process_batch env s limit))"
proof (cases "getUnprocessedVideos env s (case limit of None \<Rightarrow> 5 | Some n \<Rightarrow> n)")
  case (Inl m)
  with assms show ?thesis by (simp add: process_batch_def)
next
  case (Inr vids)
  obtain s1 r where loop:
    "batch_loop env vids s
       \<lparr> br_processed = 0, br_failed = 0, br_errors = [], br_videos_processed = [] \<rparr> = (s1, r)"
    by (cases "batch_loop env vids s
       \<lparr> br_processed = 0, br_failed = 0, br_errors = [], br_videos_processed = [] \<rparr>") auto
  from batch_loop_unique [OF assms, of env vids
      "\<lparr> br_processed = 0, br_failed = 0, br_errors = [], br_videos_processed = [] \<rparr>"] loop
  have "unique_video_ids s1" by simp
  with assms loop Inr show ?thesis
    by (cases r) (simp_all add: process_batch_def)
qed

lemma reprocess_one_store_ok:
  assumes "reprocess_one env s w = (s1, r)" and "store_ok s"
  shows "store_ok s1"
proof (cases "updateVideo env s (v_video_id w) (set_error None)")
  case (Inl m)
  with assms show ?thesis by (simp add: reprocess_one_def)
next
  case (Inr sa)
  obtain sb rb where p: "processVideoRecommendations env sa w = (sb, rb)"
    by (cases "processVideoRecommendations env sa w") auto
  from process_store_ok [OF p clear_error_store_ok [OF Inr assms(2)]] have "store_ok sb" .
  with assms(1) Inr p show ?thesis
    by (cases rb) (simp_all add: reprocess_one_def)
qed

lemma reprocess_one_unique:
  assumes "reprocess_one env s w = (s1, r)" and "unique_video_ids s"
  shows "unique_video_ids s1"
proof (cases "updateVideo env s (v_video_id w) (set_error None)")
  case (Inl m)
  with assms show ?thesis by (simp add: reprocess_one_def)
next
  case (Inr sa)
  obtain sb rb where p: "processVideoRecommendations env sa w = (sb, rb)"
    by (cases "processVideoRecommendations env sa w") auto
  from process_unique [OF p update_unique [OF Inr assms(2)]] have "unique_video_ids sb" .
  with assms(1) Inr p show ?thesis
    by (cases rb) (simp_all add: reprocess_one_def)
qed

lemma reprocess_one_failed_pending:
  assumes "reprocess_one env s w = (s1, Inl m)" and "pending s x"
  shows "pending s1 x"
proof (cases "updateVideo env s (v_video_id w) (set_error None)")
  case (Inl e)
  with assms show ?thesis by (simp add: reprocess_one_def)
next
  case (Inr sa)
  obtain sb rb where p: "processVideoRecommendations env sa w = (sb, rb)"
    by (cases "processVideoRecommendations env sa w") auto
  with assms(1) Inr have "rb = Inl m" and "sb = s1"
    by (cases rb; simp add: reprocess_one_def)+
  with p have "processVideoRecommendations env sa w = (s1, Inl m)" by simp
  from flags_kept_pending [OF process_Inl_flags [OF this] set_error_pending [OF Inr assms(2)]]
  show ?thesis .
qed

lemma reprocess_one_other_pending:
  assumes "reprocess_one env s w = (s1, r)" and "pending s x" and "x \<noteq> v_video_id w"
  shows "pending s1 x"
proof (cases "updateVideo env s (v_video_id w) (set_error None)")
  case (Inl e)
  with assms show ?thesis by (simp add: reprocess_one_def)
next
  case (Inr sa)
  obtain sb rb where p: "processVideoRecommendations env sa w = (sb, rb)"
    by (cases "processVideoRecommendations env sa w") auto
  with assms(1) Inr have "sb = s1"
    by (cases rb) (simp_all add: reprocess_one_def)
  with ok_kept_pending [OF process_ok_kept [OF p] assms(3) set_error_pending [OF Inr assms(2)]]
  show ?thesis by simp
qed

lemma reprocess_loop_store_ok:
  assumes "store_ok s" and "\<forall>w\<in>set vids. pending s (v_video_id w)"
    and "distinct (map v_video_id vids)"
  shows "store_ok (fst (reprocess_loop env vids s results))"
  using assms
proof (induction vids arbitrary: s results)
  case Nil
  then show ?case by simp
next
  case (Cons w vids)
  obtain s1 r where one: "reprocess_one env s w = (s1, r)"
    by (cases "reprocess_one env s w") auto
  note ok1 = reprocess_one_store_ok [OF one Cons.prems(1)]
  from Cons.prems(3) have others: "\<forall>w'\<in>set vids. v_video_id w' \<noteq> v_video_id w"
    and dist: "distinct (map v_video_id vids)"
    by (auto simp add: image_iff)
  from Cons.prems(2) others
  have pend1: "\<forall>w'\<in>set vids. pending s1 (v_video_id w')"
    by (auto intro: reprocess_one_other_pending [OF one])
  show ?case
  proof (cases r)
    case (Inr u)
    with one Cons.IH [OF ok1 pend1 dist] show ?thesis by simp
  next
    case (Inl m)
    with one have failed: "reprocess_one env s w = (s1, Inl m)" by simp
    from Cons.prems(2) have "pending s (v_video_id w)" by simp
    note pw = reprocess_one_failed_pending [OF failed this]
    show ?thesis
    proof (cases "updateVideo env s1 (v_video_id w) (set_error (Some m))")
      case u: (Inl e)
      with one Inl ok1 show ?thesis by simp
    next
      case u: (Inr s2)
      have ok2: "store_ok s2"
        by (rule set_error_store_ok [OF u ok1 pw])
      from pend1 have pend2: "\<forall>w'\<in>set vids. pending s2 (v_video_id w')"
        by (auto intro: set_error_pending [OF u])
      from Cons.IH [OF ok2 pend2 dist] one Inl u show ?thesis by simp
    qed
  qed
qed

lemma reprocess_loop_unique:
  "unique_video_ids s \<Longrightarrow> unique_video_ids (fst (reprocess_loop env vids s results))"
proof (induction vids arbitrary: s results)
  case Nil
  then show ?case by simp
next
  case (Cons w vids)
  obtain s1 r where one: "reprocess_one env s w = (s1, r)"
    by (cases "reprocess_one env s w") auto
  note u1 = reprocess_one_unique [OF one Cons.prems]
  show ?case
  proof (cases r)
    case (Inr u)
    with one Cons.IH [OF u1] show ?thesis by simp
  next
    case (Inl m)
    show ?thesis
    proof (cases "updateVideo env s1 (v_video_id w) (set_error (Some m))")
      case u: (Inl e)
      with one Inl u1 show ?thesis by simp
    next
      case u: (Inr s2)
      from Cons.IH [OF update_unique [OF u u1]] one Inl u show ?thesis by simp
    qed
  qed
qed

lemma failed_videos_pending:
  assumes "unique_video_ids s" and "failed_videos env s n = Inr vids" and "w \<in> set vids"
  shows "pending s (v_video_id w)"
proof -
  from assms(2,3) have w: "w \<in> set (videos s)" and np: "\<not> v_processed w"
    by (auto simp add: failed_videos_def split: option.splits dest: in_set_takeD)
  from assms(1) have "inj_on v_video_id (set (videos s))"
    by (simp add: unique_video_ids_def distinct_map)
  with w have "\<forall>v\<in>set (videos s). v_video_id v = v_video_id w \<longrightarrow> v = w"
    by (auto dest: inj_onD)
  with np show ?thesis
    by (auto simp add: pending_def list_all_iff)
qed

lemma failed_videos_distinct:
  assumes "unique_video_ids s" and "failed_videos env s n = Inr vids"
  shows "distinct (map v_video_id vids)"
proof -
  from assms(2) have "vids = take n (filter (\<lambda>v. \<not> v_processed v \<and> v_processing_error v \<noteq> None)
                                      (videos s))"
    by (auto simp add: failed_videos_def split: option.splits)
  with assms(1) show ?thesis
    by (simp add: unique_video_ids_def take_map [symmetric] distinct_map_filter distinct_take)
qed

lemma reprocess_failed_store_ok:
  assumes "store_ok s" and "unique_video_ids s"
  shows "store_ok (snd (reprocess_failed env s limit))"
proof (cases "failed_videos env s (case limit of None \<Rightarrow> 3 | Some n \<Rightarrow> n)")
  case (Inl m)
  with assms show ?thesis by (simp add: reprocess_failed_def)
next
  case (Inr vids)
  obtain s1 r where loop:
    "reprocess_loop env vids s \<lparr> rp_reprocessed = 0, rp_failed = 0, rp_errors = [] \<rparr> = (s1, r)"
    by (cases "reprocess_loop env vids s \<lparr> rp_reprocessed = 0, rp_failed = 0, rp_errors = [] \<rparr>")
       auto
  have "\<forall>w\<in>set vids. pending s (v_video_id w)"
    by (auto intro: failed_videos_pending [OF assms(2) Inr])
  moreover have "distinct (map v_video_id vids)"
    by (rule failed_videos_distinct [OF assms(2) Inr])
  ultimately have "store_ok (fst (reprocess_loop env vids s
      \<lparr> rp_reprocessed = 0, rp_failed = 0, rp_errors = [] \<rparr>))"
    by (rule reprocess_loop_store_ok [OF assms(1)])
  with loop have "store_ok s1" by simp
  with assms loop Inr show ?thesis
    by (cases r) (simp_all add: reprocess_failed_def)
qed

lemma reprocess_failed_unique:
  assumes "unique_video_ids s"
  shows "unique_video_ids (snd (reprocess_failed env s limit))"
proof (cases "failed_videos env s (case limit of None \<Rightarrow> 3 | Some n \<Rightarrow> n)")
  case (Inl m)
  with assms show ?thesis by (simp add: reprocess_failed_def)
next
  case (Inr vids)
  obtain s1 r where loop:
    "reprocess_loop env vids s \<lparr> rp_reprocessed = 0, rp_failed = 0, rp_errors = [] \<rparr> = (s1, r)"
    by (cases "reprocess_loop env vids s \<lparr> rp_reprocessed = 0, rp_failed = 0, rp_errors = [] \<rparr>")
       auto
  from reprocess_loop_unique [OF assms, of env vids
      "\<lparr> rp_reprocessed = 0, rp_failed = 0, rp_errors = [] \<rparr>"] loop
  have "unique_video_ids s1" by simp
  with assms loop Inr show ?thesis
    by (cases r) (simp_all add: reprocess_failed_def)
qed

lemma createVideo_Inr:
  "createVideo env s t d i = Inr (row, s1) \<Longrightarrow>
   videos s1 = videos s @ [row] \<and> \<not> v_processed row \<and>
   v_video_id row \<notin> v_video_id ` set (videos s)"
  by (auto simp add: createVideo_def Let_def list_ex_iff split: option.splits if_splits)

lemma createVideo_invariants:
  assumes "createVideo env s t d i = Inr (row, s1)"
  shows "store_ok s \<Longrightarrow> store_ok s1" and "unique_video_ids s \<Longrightarrow> unique_video_ids s1"
  using createVideo_Inr [OF assms]
  by (simp_all add: store_ok_def unique_video_ids_def video_ok_def)

lemma add_and_process_invariants:
  shows "store_ok s \<Longrightarrow> store_ok (snd (add_and_process env ing s videoUrl))"
    and "unique_video_ids s \<Longrightarrow> unique_video_ids (snd (add_and_process env ing s videoUrl))"
  by (auto simp add: add_and_process_def
      split: option.splits sum.splits prod.splits
      dest: createVideo_invariants process_store_ok process_unique)

text \<open>
  C4. Every processing operation takes a store in which each processed video has no
  processing error (and \<open>video_id\<close> is unique) to a store of the same kind: the function
  \<open>processVideoRecommendations\<close> and the four routes that call it, whatever requests
  the database answers with an error. The write of the success path sets
  \<open>processed = true\<close> and \<open>processing_error = null\<close> together, and the write of a
  failure in the single-video and batch routes sets the error together with
  \<open>processed = false\<close>; the reprocessing route writes the error alone, on rows that
  are not processed.
\<close>

theorem processing_keeps_processed_without_error:
  assumes "store_ok s" and "unique_video_ids s"
  shows "store_ok (fst (processVideoRecommendations env s video)) \<and>
         store_ok (snd (process_video env s videoId)) \<and>
         store_ok (snd (process_batch env s limit)) \<and>
         store_ok (snd (reprocess_failed env s limit)) \<and>
         store_ok (snd (add_and_process env ing s videoUrl)) \<and>
         unique_video_ids (snd (process_video env s videoId)) \<and>
         unique_video_ids (snd (process_batch env s limit)) \<and>
         unique_video_ids (snd (reprocess_failed env s limit)) \<and>
         unique_video_ids (snd (add_and_process env ing s videoUrl)) \<and>
         v_processed (apply_update mark_processed row) \<and>
         v_processing_error (apply_update mark_processed row) = None \<and>
         \<not> v_processed (apply_update (mark_failed message) row) \<and>
         v_processing_error (apply_update (mark_failed message) row) = Some message"
proof -
  have "store_ok (fst (processVideoRecommendations env s video))"
    using process_store_ok [of env s video] assms(1)
    by (cases "processVideoRecommendations env s video") simp
  moreover have "v_processed (apply_update mark_processed row)"
    and "v_processing_error (apply_update mark_processed row) = None"
    and "\<not> v_processed (apply_update (mark_failed message) row)"
    and "v_processing_error (apply_update (mark_failed message) row) = Some message"
    by (simp_all add: apply_update_def mark_processed_def mark_failed_def no_update_def)
  ultimately show ?thesis
    using assms
    by (simp add: process_video_store_ok process_batch_store_ok reprocess_failed_store_ok
        add_and_process_invariants process_video_unique process_batch_unique
        reprocess_failed_unique)
qed

theorem processing_keeps_processed_without_error_witness:
  "store_ok sample_store \<and> unique_video_ids sample_store \<and>
   store_ok (snd (process_video sample_services sample_store ''todo2'')) \<and>
   map (\<lambda>v. (v_processed v, v_processing_error v))
     (videos (snd (process_video sample_services sample_store ''todo2''))) =
     [(True, None), (True, None)] \<and>
   store_ok (snd (process_video failing_services sample_store ''todo2'')) \<and>
   map (\<lambda>v. (v_processed v, v_processing_error v))
     (videos (snd (process_video failing_services sample_store ''todo2''))) =
     [(True, None), (False, Some ''Failed to extract recommendations: Request timed out.'')] \<and>
   store_ok (snd (process_video unreadable_services sample_store ''done1'')) \<and>
   map (\<lambda>v. (v_processed v, v_processing_error v))
     (videos (snd (process_video unreadable_services sample_store ''done1''))) =
     [(False, Some ''Failed to get video: fetch failed''), (False, None)]"
proof -
  have a: "store_ok sample_store"
    by (simp add: store_ok_def sample_store_def sample_video_def video_ok_def)
  have b: "unique_video_ids sample_store"
    by (simp add: unique_video_ids_def sample_store_def sample_video_def)
  have c: "map (\<lambda>v. (v_processed v, v_processing_error v))
     (videos (snd (process_video sample_services sample_store ''todo2''))) =
     [(True, None), (True, None)]"
    by code_simp
  have d: "map (\<lambda>v. (v_processed v, v_processing_error v))
     (videos (snd (process_video failing_services sample_store ''todo2''))) =
     [(True, None), (False, Some ''Failed to extract recommendations: Request timed out.'')]"
    by code_simp
  from processing_keeps_processed_without_error
         [OF a b, of sample_services _ "''todo2''"]
  have e: "store_ok (snd (process_video sample_services sample_store ''todo2''))"
    by blast
  from processing_keeps_processed_without_error
         [OF a b, of failing_services _ "''todo2''"]
  have f: "store_ok (snd (process_video failing_services sample_store ''todo2''))"
    by blast
  have g: "map (\<lambda>v. (v_processed v, v_processing_error v))
     (videos (snd (process_video unreadable_services sample_store ''done1''))) =
     [(False, Some ''Failed to get video: fetch failed''), (False, None)]"
    by code_simp
  from processing_keeps_processed_without_error
         [OF a b, of unreadable_services _ "''done1''"]
  have h: "store_ok (snd (process_video unreadable_services sample_store ''done1''))"
    by blast
  from a b c d e f g h show ?thesis by blast
qed

end
